theory Spec2Isabelle
  imports Main "HOL-Library.Sublist"
begin

text \<open>
  A model of the action and authentication core of the browser agent: the action
  executor, the stability waiter, the parsers for the responses of the decision oracle
  and the authentication handler. The definitions follow the Python sources function
  by function; the properties are at the end.
\<close>

section \<open>Python strings\<close>

text \<open>
  A Python \<open>str\<close> is a sequence of code points. The model uses \<^typ>\<open>string\<close> and reads
  each \<^typ>\<open>char\<close> as the code point of the same number, so it covers the texts whose
  code points are below 256. The predicates below follow the Unicode classes that
  the Python methods use on that range.
\<close>

definition is_ascii_digit :: "char \<Rightarrow> bool" where
  "is_ascii_digit c = (let n = (of_char c :: nat) in 48 \<le> n \<and> n \<le> 57)"

definition py_isdigit_char :: "char \<Rightarrow> bool" where
  \<comment> \<open>\<open>str.isdigit\<close>: the decimal digits and the superscripts 2, 3 and 1\<close>
  "py_isdigit_char c = (let n = (of_char c :: nat) in
     (48 \<le> n \<and> n \<le> 57) \<or> n = 178 \<or> n = 179 \<or> n = 185)"

definition py_isdigit :: "string \<Rightarrow> bool" where
  "py_isdigit s = (s \<noteq> [] \<and> list_all py_isdigit_char s)"

definition py_isspace_char :: "char \<Rightarrow> bool" where
  "py_isspace_char c = (let n = (of_char c :: nat) in
     (9 \<le> n \<and> n \<le> 13) \<or> (28 \<le> n \<and> n \<le> 32) \<or> n = 133 \<or> n = 160)"

definition py_strip :: "string \<Rightarrow> string" where
  "py_strip s = rev (dropWhile py_isspace_char (rev (dropWhile py_isspace_char s)))"

definition py_lower_char :: "char \<Rightarrow> char" where
  "py_lower_char c = (let n = (of_char c :: nat) in
     if (65 \<le> n \<and> n \<le> 90) \<or> (192 \<le> n \<and> n \<le> 222 \<and> n \<noteq> 215)
     then char_of (n + 32) else c)"

definition py_lower :: "string \<Rightarrow> string" where
  "py_lower s = map py_lower_char s"

fun py_in :: "string \<Rightarrow> string \<Rightarrow> bool" where
  \<comment> \<open>\<open>pat in s\<close>\<close>
  "py_in pat [] = (pat = [])"
| "py_in pat (c # cs) = (prefix pat (c # cs) \<or> py_in pat cs)"

definition py_startswith :: "string \<Rightarrow> string \<Rightarrow> bool" where
  "py_startswith s pat = prefix pat s"

definition py_endswith :: "string \<Rightarrow> string \<Rightarrow> bool" where
  "py_endswith s pat = suffix pat s"

definition py_slice :: "string \<Rightarrow> int \<Rightarrow> int \<Rightarrow> string" where
  \<comment> \<open>\<open>s[a:b]\<close>: a negative bound counts from the end, both bounds are clamped\<close>
  "py_slice s a b =
     (let n = int (length s);
          lo = (if a < 0 then max 0 (n + a) else min a n);
          hi = (if b < 0 then max 0 (n + b) else min b n)
      in take (nat (hi - lo)) (drop (nat lo) s))"

fun py_find_at :: "string \<Rightarrow> string \<Rightarrow> int \<Rightarrow> int" where
  \<comment> \<open>the index of the first occurrence of \<open>pat\<close> in the text, which starts at index \<open>i\<close>\<close>
  "py_find_at pat [] i = (if pat = [] then i else -1)"
| "py_find_at pat (c # cs) i = (if prefix pat (c # cs) then i else py_find_at pat cs (i + 1))"

definition py_find :: "string \<Rightarrow> string \<Rightarrow> int" where
  "py_find s pat = py_find_at pat s 0"

definition py_find_from :: "string \<Rightarrow> string \<Rightarrow> int \<Rightarrow> int" where
  \<comment> \<open>\<open>s.find(pat, start)\<close> for \<open>start \<ge> 0\<close>\<close>
  "py_find_from s pat start =
     (if start > int (length s) then -1 else py_find_at pat (drop (nat start) s) start)"

fun py_rfind_at :: "string \<Rightarrow> string \<Rightarrow> int \<Rightarrow> int \<Rightarrow> int" where
  \<comment> \<open>the index of the last occurrence, \<open>best\<close> being the last one seen so far\<close>
  "py_rfind_at pat [] i best = (if pat = [] then i else best)"
| "py_rfind_at pat (c # cs) i best =
     py_rfind_at pat cs (i + 1) (if prefix pat (c # cs) then i else best)"

definition py_rfind :: "string \<Rightarrow> string \<Rightarrow> int" where
  "py_rfind s pat = py_rfind_at pat s 0 (-1)"

subsection \<open>The built-in \<open>int\<close> on a string\<close>

text \<open>
  \<open>int(s)\<close> strips white space, reads an optional sign and then decimal digits, where
  single underscores may separate digits. Anything else raises \<open>ValueError\<close>, and so
  does a literal of more than \<open>int_max_str_digits\<close> digits (the interpreter's default
  limit). The white space of \<open>int\<close> is narrower than that of \<open>str.strip\<close>: the
  ASCII white space (9 to 13 and 32) and, of the other code points, those that the
  conversion maps to a blank (133 and 160); the separators 28 to 31 are not stripped.
\<close>

definition py_int_isspace_char :: "char \<Rightarrow> bool" where
  "py_int_isspace_char c = (let n = (of_char c :: nat) in
     (9 \<le> n \<and> n \<le> 13) \<or> n = 32 \<or> n = 133 \<or> n = 160)"

definition py_int_strip :: "string \<Rightarrow> string" where
  "py_int_strip s =
     rev (dropWhile py_int_isspace_char (rev (dropWhile py_int_isspace_char s)))"

definition int_max_str_digits :: nat where
  "int_max_str_digits = 4300"

definition digit_val :: "char \<Rightarrow> nat" where
  "digit_val c = of_char c - 48"

definition dec_value :: "string \<Rightarrow> nat" where
  "dec_value s = foldl (\<lambda>acc c. 10 * acc + digit_val c) 0 s"

fun split_underscore :: "string \<Rightarrow> string \<Rightarrow> string list" where
  \<comment> \<open>the groups between underscores, \<open>cur\<close> being the group read so far (reversed)\<close>
  "split_underscore [] cur = [rev cur]"
| "split_underscore (c # cs) cur =
     (if c = CHR ''_'' then rev cur # split_underscore cs [] else split_underscore cs (c # cur))"

definition py_int_unsigned :: "string \<Rightarrow> nat option" where
  "py_int_unsigned s =
     (let groups = split_underscore s [] in
      if list_all (\<lambda>g. g \<noteq> [] \<and> list_all is_ascii_digit g) groups
         \<and> length (concat groups) \<le> int_max_str_digits
      then Some (dec_value (concat groups)) else None)"

definition py_int :: "string \<Rightarrow> int option" where
  "py_int s =
     (case py_int_strip s of
        [] \<Rightarrow> None
      | c # cs \<Rightarrow>
          if c = CHR ''-'' then map_option (\<lambda>n. - int n) (py_int_unsigned cs)
          else if c = CHR ''+'' then map_option int (py_int_unsigned cs)
          else map_option int (py_int_unsigned (c # cs)))"

section \<open>Programs over the browser page\<close>

text \<open>
  Every operation on the Playwright page is a call into the environment. The model
  passes the environment along as a world \<open>'w\<close>, and every primitive call appends an
  event to a trace, so that a theorem can say which calls a function has made. An
  exception derived from Python's \<open>Exception\<close> is the left summand of a result.
  Calls to the logger and to \<open>asyncio.sleep\<close> have no effect on the page and are left
  out.
\<close>

datatype exn = ValueError | AttributeError | TypeError | ValidationError
  | JSONDecodeError | PageError

datatype 'e event =
    EvaluateHandle int
  | ElementClick 'e
  | EvaluateClickScript int
  | HighlightElement int
  | EvaluateTagName 'e
  | GetAttributeType 'e
  | EvaluateContentEditable 'e
  | ElementFill 'e string
  | KeyboardType string
  | Goto string
  | WaitForLoadState
  | ScrollBy int
  | QuerySelector string
  | IsVisible 'e
  | InnerText 'e
  | Helper string
  | TryClickMarker int

type_synonym ('w, 'e) st = "'w \<times> 'e event list"

type_synonym ('w, 'e, 'a) prog = "('w, 'e) st \<Rightarrow> (exn + 'a) \<times> ('w, 'e) st"

definition ret :: "'a \<Rightarrow> ('w, 'e, 'a) prog" where
  "ret x = (\<lambda>s. (Inr x, s))"

definition throw :: "exn \<Rightarrow> ('w, 'e, 'a) prog" where
  "throw e = (\<lambda>s. (Inl e, s))"

definition bindE :: "('w, 'e, 'a) prog \<Rightarrow> ('a \<Rightarrow> ('w, 'e, 'b) prog) \<Rightarrow> ('w, 'e, 'b) prog" where
  "bindE m f = (\<lambda>s. case m s of (Inl e, s') \<Rightarrow> (Inl e, s') | (Inr x, s') \<Rightarrow> f x s')"

definition try_except :: "('w, 'e, 'a) prog \<Rightarrow> (exn \<Rightarrow> ('w, 'e, 'a) prog) \<Rightarrow> ('w, 'e, 'a) prog" where
  \<comment> \<open>\<open>try: m except Exception as e: h e\<close>\<close>
  "try_except m h = (\<lambda>s. case m s of (Inl e, s') \<Rightarrow> h e s' | (Inr x, s') \<Rightarrow> (Inr x, s'))"

definition try_except_ValueError :: "('w, 'e, 'a) prog \<Rightarrow> ('w, 'e, 'a) prog \<Rightarrow> ('w, 'e, 'a) prog" where
  \<comment> \<open>\<open>try: m except ValueError: h\<close>; any other exception goes on\<close>
  "try_except_ValueError m h =
     (\<lambda>s. case m s of (Inl e, s') \<Rightarrow> (if e = ValueError then h s' else (Inl e, s'))
                    | (Inr x, s') \<Rightarrow> (Inr x, s'))"

definition emit :: "'e event \<Rightarrow> ('w, 'e, unit) prog" where
  "emit ev = (\<lambda>(w, tr). (Inr (), (w, tr @ [ev])))"

definition prim :: "'e event \<Rightarrow> ('w \<Rightarrow> (exn + 'a) \<times> 'w) \<Rightarrow> ('w, 'e, 'a) prog" where
  \<comment> \<open>a primitive call that may raise\<close>
  "prim ev f = (\<lambda>(w, tr). case f w of (r, w') \<Rightarrow> (r, (w', tr @ [ev])))"

definition prim_total :: "'e event \<Rightarrow> ('w \<Rightarrow> 'a \<times> 'w) \<Rightarrow> ('w, 'e, 'a) prog" where
  \<comment> \<open>a call that catches its own exceptions\<close>
  "prim_total ev f = (\<lambda>(w, tr). case f w of (r, w') \<Rightarrow> (Inr r, (w', tr @ [ev])))"

definition py_int_or_raise :: "string \<Rightarrow> ('w, 'e, int) prog" where
  "py_int_or_raise s = (case py_int s of None \<Rightarrow> throw ValueError | Some n \<Rightarrow> ret n)"

section \<open>Actions (src/agent/schemas.py)\<close>

datatype action_type = Click | Type | Navigate | Wait | Scroll | Done

datatype scroll_dir = Up | Down

record AgentAction =
  reasoning :: string
  action_type :: action_type
  target :: "string option"
  value_field :: "string option"
  should_capture_screenshot :: bool
  step_description :: string
  scroll_direction :: "scroll_dir option"

definition truthy_str :: "string option \<Rightarrow> bool" where
  \<comment> \<open>the truth value of an \<open>Optional[str]\<close>: neither \<open>None\<close> nor empty\<close>
  "truthy_str x = (case x of None \<Rightarrow> False | Some s \<Rightarrow> s \<noteq> [])"

section \<open>The page and its primitive operations\<close>

text \<open>
  The operations of the Playwright page and of its element handles \<open>'e\<close> that the
  executor and the authentication handler call. Each takes the world and returns its
  result, or the exception it raises, with the next world.
\<close>

record ('w, 'e) page =
  evaluate_handle :: "int \<Rightarrow> 'w \<Rightarrow> (exn + 'e option) \<times> 'w"
    \<comment> \<open>\<open>page.evaluate_handle(get_element_script, marker_id)\<close>, then \<open>as_element()\<close>\<close>
  element_click :: "'e \<Rightarrow> 'w \<Rightarrow> (exn + unit) \<times> 'w"
  evaluate_click_script :: "int \<Rightarrow> 'w \<Rightarrow> (exn + bool) \<times> 'w"
    \<comment> \<open>\<open>page.evaluate(click_script, marker_id)\<close>\<close>
  highlight_element :: "int \<Rightarrow> 'w \<Rightarrow> unit \<times> 'w"
    \<comment> \<open>\<open>SoMMarker.highlight_element\<close>, which catches what the page raises\<close>
  evaluate_tag_name :: "'e \<Rightarrow> 'w \<Rightarrow> (exn + string) \<times> 'w"
  get_attribute_type :: "'e \<Rightarrow> 'w \<Rightarrow> (exn + string option) \<times> 'w"
  evaluate_content_editable :: "'e \<Rightarrow> 'w \<Rightarrow> (exn + bool) \<times> 'w"
  element_fill :: "'e \<Rightarrow> string \<Rightarrow> 'w \<Rightarrow> (exn + unit) \<times> 'w"
  keyboard_type :: "string \<Rightarrow> 'w \<Rightarrow> (exn + unit) \<times> 'w"
  goto :: "string \<Rightarrow> 'w \<Rightarrow> (exn + unit) \<times> 'w"
  wait_for_load_state :: "'w \<Rightarrow> (exn + unit) \<times> 'w"
  scroll_by :: "int \<Rightarrow> 'w \<Rightarrow> (exn + unit) \<times> 'w"
  query_selector :: "string \<Rightarrow> 'w \<Rightarrow> (exn + 'e option) \<times> 'w"
  is_visible :: "'e \<Rightarrow> 'w \<Rightarrow> (exn + bool) \<times> 'w"
  inner_text :: "'e \<Rightarrow> 'w \<Rightarrow> (exn + string) \<times> 'w"

section \<open>ActionExecutor (src/browser/action_executor.py)\<close>

definition get_element_by_marker :: "('w, 'e) page \<Rightarrow> int \<Rightarrow> ('w, 'e, 'e option) prog" where
  "get_element_by_marker p marker_id =
     try_except (prim (EvaluateHandle marker_id) (evaluate_handle p marker_id))
       (\<lambda>e. ret None)"

definition try_click_marker :: "('w, 'e) page \<Rightarrow> int \<Rightarrow> ('w, 'e, bool) prog" where
  "try_click_marker p marker_id =
     bindE (emit (TryClickMarker marker_id)) (\<lambda>_.
     try_except
       (bindE (get_element_by_marker p marker_id) (\<lambda>element.
        bindE (case element of
                 None \<Rightarrow> ret False
               | Some el \<Rightarrow>
                   try_except
                     (bindE (prim (ElementClick el) (element_click p el)) (\<lambda>_. ret True))
                     (\<lambda>e. ret False)) (\<lambda>clicked.
        if clicked then ret True
        else prim (EvaluateClickScript marker_id) (evaluate_click_script p marker_id))))
       (\<lambda>e. ret False))"

definition input_types :: "string list" where
  "input_types = [''password'', ''text'', ''email'']"

definition adjust_marker :: "('w, 'e) page \<Rightarrow> AgentAction \<Rightarrow> int \<Rightarrow> 'e option \<Rightarrow> ('w, 'e, int) prog" where
  \<comment> \<open>the check of the element's type against the description: the marker to try\<close>
  "adjust_marker p action marker_id element =
     (case element of
        None \<Rightarrow> ret marker_id
      | Some el \<Rightarrow>
          bindE (prim (EvaluateTagName el) (evaluate_tag_name p el)) (\<lambda>tag_name.
          bindE (prim (GetAttributeType el) (get_attribute_type p el)) (\<lambda>element_type.
          let action_desc_lower =
                (if step_description action \<noteq> [] then py_lower (step_description action) else [])
          in if (py_in ''button'' action_desc_lower \<or> py_in ''continue'' action_desc_lower)
                \<and> tag_name = ''input''
                \<and> (case element_type of None \<Rightarrow> False | Some t \<Rightarrow> t \<in> set input_types)
             then ret (marker_id + 1) else ret marker_id)))"

definition click_with_fallback :: "('w, 'e) page \<Rightarrow> int \<Rightarrow> ('w, 'e, bool) prog" where
  \<comment> \<open>the requested marker, then the adjacent ones\<close>
  "click_with_fallback p marker_id =
     bindE (try_click_marker p marker_id) (\<lambda>ok.
     if ok then ret True
     else bindE (try_click_marker p (marker_id + 1)) (\<lambda>ok1.
       if ok1 then ret True
       else if marker_id > 0
         then bindE (try_click_marker p (marker_id - 1)) (\<lambda>ok2.
                if ok2 then ret True else ret False)
         else ret False))"

definition click_marker :: "('w, 'e) page \<Rightarrow> AgentAction \<Rightarrow> int \<Rightarrow> ('w, 'e, bool) prog" where
  \<comment> \<open>what \<open>_execute_click\<close> does once the marker id is parsed\<close>
  "click_marker p action marker_id =
     bindE (prim_total (HighlightElement marker_id) (highlight_element p marker_id)) (\<lambda>_.
     bindE (get_element_by_marker p marker_id) (\<lambda>element.
     bindE (adjust_marker p action marker_id element) (\<lambda>marker_id'.
     click_with_fallback p marker_id')))"

definition execute_click :: "('w, 'e) page \<Rightarrow> AgentAction \<Rightarrow> ('w, 'e, bool) prog" where
  "execute_click p action =
     (if \<not> truthy_str (target action) then ret False
      else let t = the (target action) in
        if py_startswith t ''['' \<and> py_endswith t '']''
        then try_except_ValueError
               (bindE (py_int_or_raise (py_slice t 1 (-1))) (\<lambda>marker_id.
                click_marker p action marker_id))
               (ret False)
        else ret False)"

definition non_text_types :: "string list" where
  "non_text_types = [''checkbox'', ''radio'', ''submit'', ''button'']"

definition in_types :: "string option \<Rightarrow> string list \<Rightarrow> bool" where
  "in_types t ts = (case t of None \<Rightarrow> False | Some x \<Rightarrow> x \<in> set ts)"

fun find_text_input :: "('w, 'e) page \<Rightarrow> int \<Rightarrow> int list \<Rightarrow> ('w, 'e, ('e \<times> int) option) prog" where
  \<comment> \<open>\<open>for offset in range(1, 5)\<close>: the first text input after the marker\<close>
  "find_text_input p marker_id [] = ret None"
| "find_text_input p marker_id (offset # offsets) =
     (let alt_marker = marker_id + offset in
      bindE (get_element_by_marker p alt_marker) (\<lambda>alt_element.
      case alt_element of
        None \<Rightarrow> find_text_input p marker_id offsets
      | Some alt \<Rightarrow>
          bindE (prim (GetAttributeType alt) (get_attribute_type p alt)) (\<lambda>alt_type.
          bindE (prim (EvaluateTagName alt) (evaluate_tag_name p alt)) (\<lambda>alt_tag.
          if alt_tag \<in> set [''input'', ''textarea''] \<and> \<not> in_types alt_type non_text_types
          then ret (Some (alt, alt_marker))
          else find_text_input p marker_id offsets))))"

definition keyboard_typing :: "('w, 'e) page \<Rightarrow> 'e \<Rightarrow> string \<Rightarrow> ('w, 'e, unit) prog" where
  "keyboard_typing p el v =
     bindE (prim (ElementClick el) (element_click p el)) (\<lambda>_.
     prim (KeyboardType v) (keyboard_type p v))"

definition type_into :: "('w, 'e) page \<Rightarrow> string \<Rightarrow> int \<Rightarrow> ('w, 'e, bool) prog" where
  \<comment> \<open>what \<open>_execute_type\<close> does once the marker id is parsed\<close>
  "type_into p v marker_id =
     bindE (get_element_by_marker p marker_id) (\<lambda>element.
     case element of
       None \<Rightarrow> ret False
     | Some el \<Rightarrow>
         bindE (prim (EvaluateTagName el) (evaluate_tag_name p el)) (\<lambda>_.
         bindE (prim (GetAttributeType el) (get_attribute_type p el)) (\<lambda>element_type.
         bindE (if in_types element_type non_text_types
                then bindE (find_text_input p marker_id [1, 2, 3, 4]) (\<lambda>found.
                       case found of None \<Rightarrow> ret (el, marker_id) | Some alt \<Rightarrow> ret alt)
                else ret (el, marker_id)) (\<lambda>(el', marker_id').
         bindE (prim_total (HighlightElement marker_id') (highlight_element p marker_id')) (\<lambda>_.
         bindE (prim (EvaluateContentEditable el') (evaluate_content_editable p el')) (\<lambda>is_contenteditable.
         bindE (prim (EvaluateTagName el') (evaluate_tag_name p el')) (\<lambda>tag_name.
         bindE (if is_contenteditable \<or> tag_name = ''div''
                then keyboard_typing p el' v
                else try_except (prim (ElementFill el' v) (element_fill p el' v))
                       (\<lambda>e. keyboard_typing p el' v)) (\<lambda>_.
         ret True))))))))"

definition execute_type :: "('w, 'e) page \<Rightarrow> AgentAction \<Rightarrow> ('w, 'e, bool) prog" where
  "execute_type p action =
     (if \<not> truthy_str (target action) \<or> \<not> truthy_str (value_field action) then ret False
      else let t = the (target action); v = the (value_field action) in
        if py_startswith t ''['' \<and> py_endswith t '']''
        then try_except
               (bindE (py_int_or_raise (py_slice t 1 (-1))) (\<lambda>marker_id.
                type_into p v marker_id))
               (\<lambda>e. ret False)
        else ret False)"

definition execute_navigate :: "('w, 'e) page \<Rightarrow> AgentAction \<Rightarrow> ('w, 'e, bool) prog" where
  "execute_navigate p action =
     (if \<not> truthy_str (value_field action) then ret False
      else let url = the (value_field action) in
        try_except (bindE (prim (Goto url) (goto p url)) (\<lambda>_. ret True)) (\<lambda>e. ret False))"

definition execute_wait :: "('w, 'e) page \<Rightarrow> AgentAction \<Rightarrow> ('w, 'e, bool) prog" where
  "execute_wait p action =
     try_except (bindE (prim WaitForLoadState (wait_for_load_state p)) (\<lambda>_. ret True))
       (\<lambda>e. ret True)"

definition execute_scroll :: "('w, 'e) page \<Rightarrow> AgentAction \<Rightarrow> ('w, 'e, bool) prog" where
  "execute_scroll p action =
     (let direction = (case scroll_direction action of None \<Rightarrow> Down | Some d \<Rightarrow> d);
          pixels = (if direction = Down then 500 else -500)
      in try_except (bindE (prim (ScrollBy pixels) (scroll_by p pixels)) (\<lambda>_. ret True))
           (\<lambda>e. ret False))"

definition dispatch :: "('w, 'e) page \<Rightarrow> AgentAction \<Rightarrow> ('w, 'e, bool) prog" where
  \<comment> \<open>the body of the \<open>try\<close> in \<open>execute\<close>\<close>
  "dispatch p action =
     (case action_type action of
        Click \<Rightarrow> execute_click p action
      | Type \<Rightarrow> execute_type p action
      | Navigate \<Rightarrow> execute_navigate p action
      | Wait \<Rightarrow> execute_wait p action
      | Scroll \<Rightarrow> execute_scroll p action
      | Done \<Rightarrow> ret True)"

definition execute :: "('w, 'e) page \<Rightarrow> AgentAction \<Rightarrow> ('w, 'e, bool) prog" where
  "execute p action = try_except (dispatch p action) (\<lambda>e. ret False)"

section \<open>BrowserController.wait_for_stability (src/browser/controller.py)\<close>

text \<open>
  The waiter polls \<open>page.content()\<close> and compares the MD5 digest of each snapshot with
  the one before. What the page answers is not the program's: \<open>fingerprint i\<close> is the
  outcome of poll \<open>i\<close>, the digest of the snapshot or the exception raised on the way
  to it. Next to the Boolean that the method returns, the model gives the number of
  polls that the loop has made, so that a theorem can say whether the budget was used
  up. The wait for network idle after the loop swallows its exception and does not
  touch the result.
\<close>

fun stability_loop :: "(exn + 'h) list \<Rightarrow> 'h option \<Rightarrow> nat \<Rightarrow> nat \<Rightarrow> bool \<times> nat" where
  \<comment> \<open>\<open>polled\<close> counts the calls of \<open>page.content()\<close> made so far\<close>
  "stability_loop [] previous_hash stable_count polled = (stable_count \<ge> 2, polled)"
| "stability_loop (Inl e # polls) previous_hash stable_count polled =
     (stable_count \<ge> 2, polled + 1)"
| "stability_loop (Inr current_hash # polls) previous_hash stable_count polled =
     (if Some current_hash = previous_hash
      then (if stable_count + 1 \<ge> 3 then (True, polled + 1)
            else stability_loop polls (Some current_hash) (stable_count + 1) (polled + 1))
      else stability_loop polls (Some current_hash) 0 (polled + 1))"

definition wait_for_stability :: "(nat \<Rightarrow> exn + 'h) \<Rightarrow> int \<Rightarrow> bool \<times> nat" where
  \<comment> \<open>\<open>for i in range(max_attempts)\<close>, from \<open>previous_hash = None\<close> and \<open>stable_count = 0\<close>\<close>
  "wait_for_stability fingerprint max_attempts =
     stability_loop (map fingerprint [0..<nat max_attempts]) None 0 0"

definition stable :: "bool \<times> nat \<Rightarrow> bool" where
  \<comment> \<open>the value that \<open>wait_for_stability\<close> returns\<close>
  "stable r = fst r"

definition polls_made :: "bool \<times> nat \<Rightarrow> nat" where
  "polls_made r = snd r"

section \<open>Responses of the decision oracle\<close>

text \<open>
  \<open>json.loads\<close> and the validation that pydantic runs in the constructor of
  \<open>AgentAction\<close> belong to libraries. The parsers take them as parameters: \<open>loads\<close>
  gives the parsed value, or \<open>None\<close> where \<open>json.loads\<close> raises \<open>JSONDecodeError\<close>;
  \<open>validate\<close> takes the keyword arguments and gives the action or the exception of
  the constructor. JSON numbers are modelled by the integers.
\<close>

datatype json = JNull | JBool bool | JNum int | JStr string | JArr "json list"
  | JObj "(string \<times> json) list"

definition py_truthy :: "json \<Rightarrow> bool" where
  "py_truthy v = (case v of JNull \<Rightarrow> False | JBool b \<Rightarrow> b | JNum n \<Rightarrow> n \<noteq> 0
     | JStr s \<Rightarrow> s \<noteq> [] | JArr xs \<Rightarrow> xs \<noteq> [] | JObj kvs \<Rightarrow> kvs \<noteq> [])"

definition py_get :: "json \<Rightarrow> string \<Rightarrow> json \<Rightarrow> exn + json" where
  \<comment> \<open>\<open>d.get(key, default)\<close>: only a dict has the method\<close>
  "py_get d key dflt =
     (case d of
        JObj kvs \<Rightarrow> (case map_of kvs key of None \<Rightarrow> Inr dflt | Some v \<Rightarrow> Inr v)
      | _ \<Rightarrow> Inl AttributeError)"

definition wait_action :: "string \<Rightarrow> string \<Rightarrow> bool \<Rightarrow> AgentAction" where
  "wait_action r d capture = \<lparr> reasoning = r, action_type = Wait, target = None,
     value_field = None, should_capture_screenshot = capture, step_description = d,
     scroll_direction = None \<rparr>"

subsection \<open>VisionWebAgent._parse_action_response (src/agent/vision_agent.py)\<close>

definition parse_action_body ::
  "(string \<Rightarrow> json option) \<Rightarrow> ((string \<times> json) list \<Rightarrow> exn + AgentAction)
     \<Rightarrow> string \<Rightarrow> exn + AgentAction" where
  \<comment> \<open>the body of the \<open>try\<close>\<close>
  "parse_action_body loads validate response =
     (let start_idx = py_find response ''{'';
          end_idx = py_rfind response ''}'' + 1
      in if start_idx = -1 \<or> end_idx = 0 then Inl ValueError
         else case loads (py_slice response start_idx end_idx) of
                None \<Rightarrow> Inl JSONDecodeError
              | Some (JObj action_dict) \<Rightarrow> validate action_dict
              | Some _ \<Rightarrow> Inl TypeError)"

definition parse_action_response ::
  "(string \<Rightarrow> json option) \<Rightarrow> ((string \<times> json) list \<Rightarrow> exn + AgentAction)
     \<Rightarrow> string \<Rightarrow> AgentAction" where
  "parse_action_response loads validate response =
     (case parse_action_body loads validate response of
        Inr a \<Rightarrow> a
      | Inl e \<Rightarrow> wait_action ''Failed to parse LLM response'' ''Waiting due to parse error'' False)"

subsection \<open>VisionLoginAgent.decide_login_action, from the response text on
  (src/browser/vision_login_agent.py)\<close>

record vision_state =
  action :: "AgentAction option"
  is_logged_in :: bool
  is_login_page :: bool

definition fence :: string where
  "fence = [CHR 0x60, CHR 0x60, CHR 0x60]"

definition extract_json_text :: "string \<Rightarrow> string" where
  "extract_json_text response_text =
     (if py_in (fence @ ''json'') response_text then
        (let json_start = py_find response_text (fence @ ''json'') + 7;
             json_end = py_find_from response_text fence json_start
         in py_strip (py_slice response_text json_start json_end))
      else if py_in fence response_text then
        (let json_start = py_find response_text fence + 3;
             json_end = py_find_from response_text fence json_start
         in py_strip (py_slice response_text json_start json_end))
      else
        (let json_start = py_find response_text ''{'';
             json_end = py_rfind response_text ''}'' + 1
         in if json_start \<noteq> -1 \<and> json_end > json_start
            then py_strip (py_slice response_text json_start json_end)
            else response_text))"

definition json_of_opt :: "string option \<Rightarrow> json" where
  "json_of_opt x = (case x of None \<Rightarrow> JNull | Some s \<Rightarrow> JStr s)"

definition substitute_password :: "(string \<rightharpoonup> string) \<Rightarrow> json \<Rightarrow> exn + json" where
  \<comment> \<open>the placeholders for the password are replaced by \<open>credentials.get("password")\<close>\<close>
  "substitute_password credentials action_data =
     (case py_get action_data ''value'' JNull of
        Inl e \<Rightarrow> Inl e
      | Inr v \<Rightarrow>
          if v = JStr ''[password]'' \<or> v = JStr ''[provided]''
          then (case action_data of
                  JObj kvs \<Rightarrow> Inr (JObj ((''value'', json_of_opt (credentials ''password'')) # kvs))
                | _ \<Rightarrow> Inl AttributeError)
          else Inr action_data)"

definition normalize_target :: "json \<Rightarrow> exn + json" where
  \<comment> \<open>\<open>if target and target.isdigit(): target = f"[{target}]"\<close>\<close>
  "normalize_target t =
     (if py_truthy t
      then (case t of
              JStr s \<Rightarrow> Inr (if py_isdigit s then JStr (''['' @ s @ '']'') else t)
            | _ \<Rightarrow> Inl AttributeError)
      else Inr t)"

definition the_get :: "json \<Rightarrow> string \<Rightarrow> json \<Rightarrow> json" where
  \<comment> \<open>\<open>get\<close> on a value known to be a dict\<close>
  "the_get d key dflt = (case py_get d key dflt of Inr v \<Rightarrow> v | Inl e \<Rightarrow> dflt)"

definition login_action_kwargs :: "(string \<rightharpoonup> string) \<Rightarrow> json \<Rightarrow> exn + (string \<times> json) list" where
  \<comment> \<open>the keyword arguments that the constructor of \<open>AgentAction\<close> receives\<close>
  "login_action_kwargs credentials decision =
     (case py_get decision ''action'' (JObj []) of
        Inl e \<Rightarrow> Inl e
      | Inr action_data0 \<Rightarrow>
          (case substitute_password credentials action_data0 of
             Inl e \<Rightarrow> Inl e
           | Inr action_data \<Rightarrow>
               (case normalize_target (the_get action_data ''target'' JNull) of
                  Inl e \<Rightarrow> Inl e
                | Inr target' \<Rightarrow>
                    Inr [(''action_type'', the_get action_data ''action_type'' (JStr ''wait'')),
                         (''target'', target'),
                         (''value'', the_get action_data ''value'' JNull),
                         (''reasoning'', the_get action_data ''reasoning'' (JStr [])),
                         (''step_description'', the_get action_data ''step_description'' (JStr [])),
                         (''should_capture_screenshot'', JBool True)])))"

definition parse_login_decision ::
  "(string \<Rightarrow> json option) \<Rightarrow> ((string \<times> json) list \<Rightarrow> exn + AgentAction)
     \<Rightarrow> (string \<rightharpoonup> string) \<Rightarrow> string \<Rightarrow> exn + vision_state" where
  "parse_login_decision loads validate credentials response_text =
     (case loads (extract_json_text response_text) of
        None \<Rightarrow>
          Inr \<lparr> action = Some (wait_action ''Failed to parse login decision''
                                 ''Waiting to analyze page'' True),
                is_logged_in = False, is_login_page = False \<rparr>
      | Some decision \<Rightarrow>
          (case login_action_kwargs credentials decision of
             Inl e \<Rightarrow> Inl e
           | Inr kwargs \<Rightarrow>
               (case validate kwargs of
                  Inl e \<Rightarrow> Inl e
                | Inr a \<Rightarrow>
                    Inr \<lparr> action = Some a,
                          is_logged_in = py_truthy (the_get decision ''is_logged_in'' (JBool False)),
                          is_login_page = py_truthy (the_get decision ''is_login_page'' (JBool False)) \<rparr>)))"

section \<open>AuthHandler (src/browser/auth_handler.py)\<close>

record actions =
  navigated_to_login :: bool
  filled_email :: bool
  clicked_continue_after_email :: bool
  filled_password :: bool
  submitted_login :: bool

record AuthHandler =
  actions_taken :: actions
  previous_state :: "string option"
  stuck_counter :: nat

definition max_stuck_iterations :: nat where
  "max_stuck_iterations = 2"

definition init_handler :: AuthHandler where
  \<comment> \<open>the fields that \<open>__init__\<close> sets\<close>
  "init_handler = \<lparr> actions_taken = \<lparr> navigated_to_login = False, filled_email = False,
       clicked_continue_after_email = False, filled_password = False,
       submitted_login = False \<rparr>,
     previous_state = None, stuck_counter = 0 \<rparr>"

definition reset_actions :: "AuthHandler \<Rightarrow> AuthHandler" where
  "reset_actions h = h\<lparr>actions_taken := \<lparr> navigated_to_login = True, filled_email = False,
       clicked_continue_after_email = False, filled_password = False,
       submitted_login = False \<rparr>\<rparr>"

text \<open>
  The methods of the handler that no property below looks into are operations of the
  environment: each catches what the page raises and returns its flag, except the
  screenshot and the call of the vision agent, whose exceptions go on. An absent
  \<open>som_marker\<close> is \<open>has_som_marker = False\<close>.
\<close>

record 'w helpers =
  has_som_marker :: bool
  get_page_state :: "'w \<Rightarrow> string \<times> 'w"
  mark_page :: "'w \<Rightarrow> unit \<times> 'w"
  remove_markers :: "'w \<Rightarrow> unit \<times> 'w"
  take_screenshot :: "string option \<Rightarrow> int \<Rightarrow> 'w \<Rightarrow> (exn + string) \<times> 'w"
  page_url :: "'w \<Rightarrow> string \<times> 'w"
  decide_login_action ::
    "string \<Rightarrow> (string \<rightharpoonup> string) \<Rightarrow> string \<Rightarrow> 'w \<Rightarrow> (exn + vision_state) \<times> 'w"
  vision_fallback_action :: "vision_state \<Rightarrow> string \<Rightarrow> 'w \<Rightarrow> bool \<times> 'w"
  fill_email_field :: "string \<Rightarrow> 'w \<Rightarrow> bool \<times> 'w"
  click_continue_button :: "'w \<Rightarrow> bool \<times> 'w"
  detect_2fa_page :: "'w \<Rightarrow> bool \<times> 'w"
  wait_for_human_intervention :: "int \<Rightarrow> 'w \<Rightarrow> bool \<times> 'w"
  fill_password_field :: "string \<Rightarrow> 'w \<Rightarrow> bool \<times> 'w"
  submit_login_form :: "'w \<Rightarrow> bool \<times> 'w"
  check_for_error_messages :: "'w \<Rightarrow> string option \<times> 'w"

subsection \<open>\<open>_navigate_to_login_page\<close>\<close>

definition login_selectors :: "string list" where
  \<open>login_selectors =
     [''a:has-text("Sign in"):not(:has-text("Sign up"))'',
      ''a:has-text("Log in"):not(:has-text("Sign up"))'',
      ''button:has-text("Sign in"):not(:has-text("Sign up"))'',
      ''button:has-text("Log in"):not(:has-text("Sign up"))'',
      ''a:has-text("Login"):not(:has-text("Sign up"))'',
      ''button:has-text("Login"):not(:has-text("Sign up"))'']\<close>

definition href_selectors :: "string list" where
  \<open>href_selectors =
     [''[href*="/login"]:not([href*="sign"])'',
      ''[href*="/signin"]:not([href*="signup"])'']\<close>

definition try_login_selector :: "('w, 'e) page \<Rightarrow> string \<Rightarrow> ('w, 'e, bool) prog" where
  \<comment> \<open>the body of the first loop: \<open>True\<close> where it returns \<open>True\<close>\<close>
  "try_login_selector p selector =
     try_except
       (bindE (prim (QuerySelector selector) (query_selector p selector)) (\<lambda>element.
        case element of
          None \<Rightarrow> ret False
        | Some el \<Rightarrow>
            bindE (prim (IsVisible el) (is_visible p el)) (\<lambda>visible.
            if \<not> visible then ret False
            else bindE (prim (InnerText el) (inner_text p el)) (\<lambda>text.
              let text_lower = py_lower text in
              if py_in ''sign up'' text_lower \<or> py_in ''signup'' text_lower
                 \<or> py_in ''register'' text_lower
              then ret False
              else bindE (prim (ElementClick el) (element_click p el)) (\<lambda>_. ret True)))))
       (\<lambda>e. ret False)"

definition try_href_selector :: "('w, 'e) page \<Rightarrow> string \<Rightarrow> ('w, 'e, bool) prog" where
  \<comment> \<open>the body of the second loop\<close>
  "try_href_selector p selector =
     try_except
       (bindE (prim (QuerySelector selector) (query_selector p selector)) (\<lambda>element.
        case element of
          None \<Rightarrow> ret False
        | Some el \<Rightarrow>
            bindE (prim (IsVisible el) (is_visible p el)) (\<lambda>visible.
            if \<not> visible then ret False
            else bindE (prim (InnerText el) (inner_text p el)) (\<lambda>text.
              if \<not> py_in ''sign up'' (py_lower text) \<and> \<not> py_in ''signup'' (py_lower text)
              then bindE (prim (ElementClick el) (element_click p el)) (\<lambda>_. ret True)
              else ret False))))
       (\<lambda>e. ret False)"

fun first_success :: "('a \<Rightarrow> ('w, 'e, bool) prog) \<Rightarrow> 'a list \<Rightarrow> ('w, 'e, bool) prog" where
  \<comment> \<open>\<open>for x in xs\<close>, left at the first body that returns \<open>True\<close>\<close>
  "first_success body [] = ret False"
| "first_success body (x # xs) =
     bindE (body x) (\<lambda>ok. if ok then ret True else first_success body xs)"

definition navigate_to_login_page :: "('w, 'e) page \<Rightarrow> ('w, 'e, bool) prog" where
  "navigate_to_login_page p =
     bindE (first_success (try_login_selector p) login_selectors) (\<lambda>ok.
     if ok then ret True else first_success (try_href_selector p) href_selectors)"

subsection \<open>\<open>_is_password_field_visible\<close>\<close>

definition password_selectors :: "string list" where
  \<open>password_selectors =
     [''input[type="password"]'',
      ''input[autocomplete="current-password"]'',
      ''input[name="password"]'',
      ''input[id*="password"]'']\<close>

definition selector_visible :: "('w, 'e) page \<Rightarrow> string \<Rightarrow> ('w, 'e, bool) prog" where
  "selector_visible p selector =
     bindE (prim (QuerySelector selector) (query_selector p selector)) (\<lambda>element.
     case element of
       None \<Rightarrow> ret False
     | Some el \<Rightarrow> prim (IsVisible el) (is_visible p el))"

definition is_password_field_visible :: "('w, 'e) page \<Rightarrow> ('w, 'e, bool) prog" where
  "is_password_field_visible p =
     try_except (first_success (selector_visible p) password_selectors) (\<lambda>e. ret False)"

subsection \<open>\<open>authenticate\<close>\<close>

text \<open>
  One pass of the loop ends in \<open>continue\<close> (or at the end of the body), in a
  \<open>return\<close>, or goes on to the next block of the body.
\<close>

datatype flow = FallThrough | Continue | Return bool

definition then_block ::
  "('w, 'e, flow \<times> AuthHandler) prog \<Rightarrow> (AuthHandler \<Rightarrow> ('w, 'e, flow \<times> AuthHandler) prog)
     \<Rightarrow> ('w, 'e, flow \<times> AuthHandler) prog" where
  "then_block m f =
     bindE m (\<lambda>(fl, h). case fl of FallThrough \<Rightarrow> f h | _ \<Rightarrow> ret (fl, h))"

definition set_navigated :: "AuthHandler \<Rightarrow> AuthHandler" where
  "set_navigated h = h\<lparr>actions_taken := (actions_taken h)\<lparr>navigated_to_login := True\<rparr>\<rparr>"

definition set_filled_email :: "AuthHandler \<Rightarrow> AuthHandler" where
  "set_filled_email h = h\<lparr>actions_taken := (actions_taken h)\<lparr>filled_email := True\<rparr>\<rparr>"

definition set_clicked_continue :: "AuthHandler \<Rightarrow> AuthHandler" where
  "set_clicked_continue h =
     h\<lparr>actions_taken := (actions_taken h)\<lparr>clicked_continue_after_email := True\<rparr>\<rparr>"

definition set_filled_password :: "AuthHandler \<Rightarrow> AuthHandler" where
  "set_filled_password h = h\<lparr>actions_taken := (actions_taken h)\<lparr>filled_password := True\<rparr>\<rparr>"

definition set_submitted :: "AuthHandler \<Rightarrow> AuthHandler" where
  "set_submitted h = h\<lparr>actions_taken := (actions_taken h)\<lparr>submitted_login := True\<rparr>\<rparr>"

definition observe ::
  "'w helpers \<Rightarrow> (string \<rightharpoonup> string) \<Rightarrow> string option \<Rightarrow> int \<Rightarrow> AuthHandler
     \<Rightarrow> ('w, 'e, vision_state \<times> string \<times> AuthHandler) prog" where
  \<comment> \<open>the page state and the stuck counter, the marked screenshot, the vision agent\<close>
  "observe H credentials screenshot_dir step h =
     bindE (prim_total (Helper ''_get_page_state'') (get_page_state H)) (\<lambda>current_state.
     let h1 = (if Some current_state = previous_state h
               then h\<lparr>stuck_counter := stuck_counter h + 1\<rparr>
               else h\<lparr>stuck_counter := 0, previous_state := Some current_state\<rparr>) in
     bindE (if has_som_marker H then prim_total (Helper ''mark_page'') (mark_page H)
            else ret ()) (\<lambda>_.
     bindE (prim (Helper ''_take_screenshot'') (take_screenshot H screenshot_dir step))
       (\<lambda>screenshot_path.
     bindE (prim_total (Helper ''page.url'') (page_url H)) (\<lambda>current_url.
     bindE (prim (Helper ''decide_login_action'')
              (decide_login_action H screenshot_path credentials current_url)) (\<lambda>vs.
     bindE (if has_som_marker H then prim_total (Helper ''remove_markers'') (remove_markers H)
            else ret ()) (\<lambda>_.
     ret (vs, screenshot_path, h1)))))))"

definition fallback :: "'w helpers \<Rightarrow> vision_state \<Rightarrow> string \<Rightarrow> ('w, 'e, bool) prog" where
  "fallback H vs screenshot_path =
     prim_total (Helper ''_vision_fallback_action'') (vision_fallback_action H vs screenshot_path)"

definition stuck_block ::
  "'w helpers \<Rightarrow> vision_state \<Rightarrow> string \<Rightarrow> AuthHandler \<Rightarrow> ('w, 'e, flow \<times> AuthHandler) prog" where
  "stuck_block H vs screenshot_path h =
     (if stuck_counter h \<ge> max_stuck_iterations
      then bindE (fallback H vs screenshot_path) (\<lambda>success.
             if success then ret (Continue, h\<lparr>stuck_counter := 0\<rparr>)
             else ret (FallThrough, h))
      else ret (FallThrough, h))"

definition navigate_block ::
  "'w helpers \<Rightarrow> ('w, 'e) page \<Rightarrow> vision_state \<Rightarrow> string \<Rightarrow> AuthHandler
     \<Rightarrow> ('w, 'e, flow \<times> AuthHandler) prog" where
  "navigate_block H p vs screenshot_path h =
     (if \<not> navigated_to_login (actions_taken h) then
        (if is_login_page vs then ret (Continue, set_navigated h)
         else bindE (navigate_to_login_page p) (\<lambda>ok.
           if ok then ret (Continue, set_navigated h)
           else if (case action vs of None \<Rightarrow> False | Some a \<Rightarrow> action_type a = Click)
             then bindE (fallback H vs screenshot_path) (\<lambda>success.
                    if success then ret (Continue, set_navigated h)
                    else ret (FallThrough, h))
             else ret (FallThrough, h)))
      else ret (FallThrough, h))"

definition email_block ::
  "'w helpers \<Rightarrow> string \<Rightarrow> AuthHandler \<Rightarrow> ('w, 'e, flow \<times> AuthHandler) prog" where
  "email_block H email h =
     (if \<not> filled_email (actions_taken h) then
        bindE (prim_total (Helper ''_fill_email_field'') (fill_email_field H email)) (\<lambda>ok.
        if ok then ret (Continue, set_filled_email h) else ret (Continue, h))
      else ret (FallThrough, h))"

definition verification_gate ::
  "'w helpers \<Rightarrow> AuthHandler \<Rightarrow> ('w, 'e, flow \<times> AuthHandler) prog" where
  \<comment> \<open>after the advance: a verification page ends the run with what the wait returns\<close>
  "verification_gate H h =
     bindE (prim_total (Helper ''_detect_2fa_page'') (detect_2fa_page H)) (\<lambda>detected.
     if detected
     then bindE (prim_total (Helper ''wait_for_human_intervention'')
                   (wait_for_human_intervention H 300)) (\<lambda>success.
            ret (Return success, h))
     else ret (Continue, h))"

definition advance_block ::
  "'w helpers \<Rightarrow> ('w, 'e) page \<Rightarrow> vision_state \<Rightarrow> string \<Rightarrow> AuthHandler
     \<Rightarrow> ('w, 'e, flow \<times> AuthHandler) prog" where
  "advance_block H p vs screenshot_path h =
     (if \<not> clicked_continue_after_email (actions_taken h) then
        bindE (is_password_field_visible p) (\<lambda>password_visible.
        if password_visible then ret (Continue, set_clicked_continue h)
        else bindE (prim_total (Helper ''_click_continue_button'') (click_continue_button H))
          (\<lambda>continue_clicked.
          if continue_clicked then verification_gate H (set_clicked_continue h)
          else bindE (fallback H vs screenshot_path) (\<lambda>success.
            if success then verification_gate H (set_clicked_continue h)
            else ret (Continue, h))))
      else ret (FallThrough, h))"

definition password_block ::
  "'w helpers \<Rightarrow> string \<Rightarrow> AuthHandler \<Rightarrow> ('w, 'e, flow \<times> AuthHandler) prog" where
  "password_block H password h =
     (if \<not> filled_password (actions_taken h) then
        bindE (prim_total (Helper ''_fill_password_field'') (fill_password_field H password))
          (\<lambda>ok.
        if ok then ret (Continue, set_filled_password h) else ret (Continue, h))
      else ret (FallThrough, h))"

definition submit_block :: "'w helpers \<Rightarrow> AuthHandler \<Rightarrow> ('w, 'e, flow \<times> AuthHandler) prog" where
  "submit_block H h =
     (if \<not> submitted_login (actions_taken h) then
        bindE (prim_total (Helper ''_submit_login_form'') (submit_login_form H)) (\<lambda>ok.
        if ok then
          bindE (prim_total (Helper ''_detect_2fa_page'') (detect_2fa_page H)) (\<lambda>detected.
          if detected
          then bindE (prim_total (Helper ''wait_for_human_intervention'')
                        (wait_for_human_intervention H 300)) (\<lambda>success.
                 if success then ret (FallThrough, set_submitted h)
                 else ret (Return False, set_submitted h))
          else ret (FallThrough, set_submitted h))
        else ret (FallThrough, h))
      else ret (FallThrough, h))"

definition error_block :: "'w helpers \<Rightarrow> AuthHandler \<Rightarrow> ('w, 'e, flow \<times> AuthHandler) prog" where
  "error_block H h =
     bindE (prim_total (Helper ''_check_for_error_messages'') (check_for_error_messages H))
       (\<lambda>error_msg.
     if truthy_str error_msg then ret (Continue, reset_actions h) else ret (Continue, h))"

definition auth_iteration ::
  "'w helpers \<Rightarrow> ('w, 'e) page \<Rightarrow> (string \<rightharpoonup> string) \<Rightarrow> string \<Rightarrow> string
     \<Rightarrow> string option \<Rightarrow> int \<Rightarrow> AuthHandler \<Rightarrow> ('w, 'e, flow \<times> AuthHandler) prog" where
  \<comment> \<open>the body of \<open>for step in range(1, max_steps + 1)\<close>\<close>
  "auth_iteration H p credentials email password screenshot_dir step h =
     bindE (observe H credentials screenshot_dir step h) (\<lambda>(vs, screenshot_path, h1).
     if is_logged_in vs then ret (Return True, h1)
     else
       then_block (stuck_block H vs screenshot_path h1) (\<lambda>h2.
       then_block (navigate_block H p vs screenshot_path h2) (\<lambda>h3.
       then_block (email_block H email h3) (\<lambda>h4.
       then_block (advance_block H p vs screenshot_path h4) (\<lambda>h5.
       then_block (password_block H password h5) (\<lambda>h6.
       then_block (submit_block H h6) (\<lambda>h7.
       error_block H h7)))))))"

fun auth_loop ::
  "'w helpers \<Rightarrow> ('w, 'e) page \<Rightarrow> (string \<rightharpoonup> string) \<Rightarrow> string \<Rightarrow> string
     \<Rightarrow> string option \<Rightarrow> int list \<Rightarrow> AuthHandler \<Rightarrow> ('w, 'e, bool \<times> AuthHandler) prog" where
  "auth_loop H p credentials email password screenshot_dir [] h = ret (False, h)"
| "auth_loop H p credentials email password screenshot_dir (step # steps) h =
     bindE (auth_iteration H p credentials email password screenshot_dir step h) (\<lambda>(fl, h').
     case fl of
       Return b \<Rightarrow> ret (b, h')
     | _ \<Rightarrow> auth_loop H p credentials email password screenshot_dir steps h')"

definition py_or :: "string option \<Rightarrow> string option \<Rightarrow> string option" where
  \<comment> \<open>\<open>x or y\<close> on optional strings\<close>
  "py_or x y = (if truthy_str x then x else y)"

definition authenticate ::
  "'w helpers \<Rightarrow> ('w, 'e) page \<Rightarrow> (string \<rightharpoonup> string) \<Rightarrow> int \<Rightarrow> string option
     \<Rightarrow> AuthHandler \<Rightarrow> ('w, 'e, bool \<times> AuthHandler) prog" where
  "authenticate H p credentials max_steps screenshot_dir h =
     (let email = py_or (credentials ''email'') (credentials ''username'');
          password = credentials ''password''
      in if \<not> truthy_str email \<or> \<not> truthy_str password then ret (False, h)
         else auth_loop H p credentials (the email) (the password) screenshot_dir
                [1..max_steps] h)"

section \<open>Observing a run\<close>

definition click_attempts :: "'e event list \<Rightarrow> int list" where
  \<comment> \<open>the markers at which \<open>_try_click_marker\<close> was called, in order\<close>
  "click_attempts tr = concat (map (\<lambda>ev. case ev of TryClickMarker i \<Rightarrow> [i] | _ \<Rightarrow> []) tr)"

definition script_click_attempts :: "'e event list \<Rightarrow> int list" where
  \<comment> \<open>the markers with which the click script was evaluated on the page, in order\<close>
  "script_click_attempts tr =
     concat (map (\<lambda>ev. case ev of EvaluateClickScript i \<Rightarrow> [i] | _ \<Rightarrow> []) tr)"




section \<open>Concrete pages, responses and environments\<close>

text \<open>
  A page with a fixed list of elements, for concrete runs. The scripts of the executor
  index the list of interactive elements: the lookup script returns
  \<open>uniqueElements[marker_id] || null\<close>, and the click script clicks when
  \<open>marker_id < uniqueElements.length\<close>, which for a negative marker reads an undefined
  element and throws. A selector finds the first element that matches it.
\<close>

record dom_element =
  el_tag :: string
  el_type :: "string option"
  el_text :: string
  el_visible :: bool
  el_matches :: "string list"

definition static_page :: "dom_element list \<Rightarrow> (unit, dom_element) page" where
  "static_page els =
     \<lparr> evaluate_handle = (\<lambda>i w.
         (Inr (if 0 \<le> i \<and> i < int (length els) then Some (els ! nat i) else None), w)),
       element_click = (\<lambda>e w. (Inr (), w)),
       evaluate_click_script = (\<lambda>i w.
         (if i < 0 then Inl PageError else Inr (i < int (length els)), w)),
       highlight_element = (\<lambda>i w. ((), w)),
       evaluate_tag_name = (\<lambda>e w. (Inr (el_tag e), w)),
       get_attribute_type = (\<lambda>e w. (Inr (el_type e), w)),
       evaluate_content_editable = (\<lambda>e w. (Inr False, w)),
       element_fill = (\<lambda>e v w. (Inr (), w)),
       keyboard_type = (\<lambda>v w. (Inr (), w)),
       goto = (\<lambda>url w. (Inr (), w)),
       wait_for_load_state = (\<lambda>w. (Inr (), w)),
       scroll_by = (\<lambda>n w. (Inr (), w)),
       query_selector = (\<lambda>sel w. (Inr (find (\<lambda>e. sel \<in> set (el_matches e)) els), w)),
       is_visible = (\<lambda>e w. (Inr (el_visible e), w)),
       inner_text = (\<lambda>e w. (Inr (el_text e), w)) \<rparr>"

definition click_action :: "string \<Rightarrow> AgentAction" where
  "click_action t = \<lparr> reasoning = ''r'', action_type = Click, target = Some t,
     value_field = None, should_capture_screenshot = False, step_description = ''d'',
     scroll_direction = None \<rparr>"

definition type_action :: "string option \<Rightarrow> string option \<Rightarrow> AgentAction" where
  "type_action t v = \<lparr> reasoning = ''r'', action_type = Type, target = t,
     value_field = v, should_capture_screenshot = False, step_description = ''d'',
     scroll_direction = None \<rparr>"

text \<open>Stand-ins for \<open>json.loads\<close> on one text, and a parsed decision, for concrete runs.\<close>

definition loads_42 :: "string \<Rightarrow> json option" where
  "loads_42 s = (if s = ''42'' then Some (JNum 42) else None)"

definition decision_click_7 :: "(string \<times> json) list" where
  "decision_click_7 =
     [(''is_login_page'', JBool False), (''is_logged_in'', JBool False),
      (''action'', JObj [(''action_type'', JStr ''click''), (''target'', JStr ''7'')])]"

text \<open>
  Helpers for concrete runs: the page state never changes, the vision agent sees a
  login page and recommends to wait, and no helper method finds anything to do.
\<close>

definition quiet_helpers :: "unit helpers" where
  "quiet_helpers =
     \<lparr> has_som_marker = False,
       get_page_state = (\<lambda>w. (''d41d8'', w)),
       mark_page = (\<lambda>w. ((), w)),
       remove_markers = (\<lambda>w. ((), w)),
       take_screenshot = (\<lambda>dir step w. (Inr ''/tmp/auth_step.png'', w)),
       page_url = (\<lambda>w. (''https://app.example/login'', w)),
       decide_login_action = (\<lambda>path credentials url w.
         (Inr \<lparr> action = Some (wait_action ''r'' ''d'' True), is_logged_in = False,
                 is_login_page = True \<rparr>, w)),
       vision_fallback_action = (\<lambda>vs path w. (False, w)),
       fill_email_field = (\<lambda>email w. (False, w)),
       click_continue_button = (\<lambda>w. (False, w)),
       detect_2fa_page = (\<lambda>w. (False, w)),
       wait_for_human_intervention = (\<lambda>n w. (False, w)),
       fill_password_field = (\<lambda>password w. (False, w)),
       submit_login_form = (\<lambda>w. (False, w)),
       check_for_error_messages = (\<lambda>w. (None, w)) \<rparr>"


definition register_link :: dom_element where
  \<open>register_link = \<lparr> el_tag = ''a'', el_type = None, el_text = ''Register'',
     el_visible = True, el_matches = [''[href*="/login"]:not([href*="sign"])''] \<rparr>\<close>

definition email_filled :: AuthHandler where
  \<comment> \<open>the handler after navigation and the entry of the identifier\<close>
  "email_filled = \<lparr> actions_taken = \<lparr> navigated_to_login = True, filled_email = True,
       clicked_continue_after_email = False, filled_password = False,
       submitted_login = False \<rparr>,
     previous_state = None, stuck_counter = 0 \<rparr>"






section \<open>Properties\<close>

subsection \<open>The executor: what a click or a lookup leaves in the trace\<close>

lemma get_element_by_marker_result:
  "\<exists>r w'. get_element_by_marker p i (w, tr) = (Inr r, (w', tr @ [EvaluateHandle i]))"
  unfolding get_element_by_marker_def try_except_def prim_def ret_def
  by (auto split: prod.splits sum.splits)

lemma get_element_by_marker_none:
  assumes "\<forall>w el. fst (evaluate_handle p i w) \<noteq> Inr (Some el)"
  shows "\<exists>w'. get_element_by_marker p i (w, tr) = (Inr None, (w', tr @ [EvaluateHandle i]))"
proof -
  obtain r w' where e: "evaluate_handle p i w = (r, w')" by (cases "evaluate_handle p i w")
  with assms have "r \<noteq> Inr (Some el)" for el by (metis fst_conv)
  then have "(\<exists>x. r = Inl x) \<or> r = Inr None"
  proof (cases r)
    case (Inr b)
    with \<open>\<And>el. r \<noteq> Inr (Some el)\<close> show ?thesis by (cases b) auto
  qed simp
  with e show ?thesis
    unfolding get_element_by_marker_def try_except_def prim_def ret_def by auto
qed

lemma try_click_marker_calls:
  "\<exists>b w' tr'. try_click_marker p i (w, tr) = (Inr b, (w', tr'))
      \<and> click_attempts tr' = click_attempts tr @ [i]
      \<and> (\<not> b \<longrightarrow> script_click_attempts tr' = script_click_attempts tr @ [i])"
proof -
  obtain r w1 where g: "get_element_by_marker p i (w, tr @ [TryClickMarker i])
        = (Inr r, (w1, tr @ [TryClickMarker i] @ [EvaluateHandle i]))"
    using get_element_by_marker_result[of p i w "tr @ [TryClickMarker i]"] by auto
  show ?thesis
    unfolding try_click_marker_def bindE_def emit_def
    apply (simp add: g try_except_def)
    apply (cases r)
     apply (auto simp: ret_def prim_def bindE_def try_except_def click_attempts_def
        script_click_attempts_def split: prod.splits sum.splits)
    done
qed

lemma click_with_fallback_calls:
  assumes "click_with_fallback p m (w, tr) = (r, (w', tr'))"
  shows "\<exists>b. r = Inr b"
    and "r = Inr False \<Longrightarrow>
           click_attempts tr' = click_attempts tr @ (if 0 < m then [m, m + 1, m - 1] else [m, m + 1])"
    and "r = Inr False \<Longrightarrow>
           script_click_attempts tr'
             = script_click_attempts tr @ (if 0 < m then [m, m + 1, m - 1] else [m, m + 1])"
    and "prefix (click_attempts tr') (click_attempts tr @ (if 0 < m then [m, m + 1, m - 1] else [m, m + 1]))"
    and "prefix (click_attempts tr @ [m]) (click_attempts tr')"
proof -
  obtain b0 w0 tr0 where t0: "try_click_marker p m (w, tr) = (Inr b0, (w0, tr0))"
      "click_attempts tr0 = click_attempts tr @ [m]"
      "\<not> b0 \<longrightarrow> script_click_attempts tr0 = script_click_attempts tr @ [m]"
    using try_click_marker_calls[of p m w tr] by blast
  obtain b1 w1 tr1 where t1: "try_click_marker p (m + 1) (w0, tr0) = (Inr b1, (w1, tr1))"
      "click_attempts tr1 = click_attempts tr0 @ [m + 1]"
      "\<not> b1 \<longrightarrow> script_click_attempts tr1 = script_click_attempts tr0 @ [m + 1]"
    using try_click_marker_calls[of p "m + 1" w0 tr0] by blast
  obtain b2 w2 tr2 where t2: "try_click_marker p (m - 1) (w1, tr1) = (Inr b2, (w2, tr2))"
      "click_attempts tr2 = click_attempts tr1 @ [m - 1]"
      "\<not> b2 \<longrightarrow> script_click_attempts tr2 = script_click_attempts tr1 @ [m - 1]"
    using try_click_marker_calls[of p "m - 1" w1 tr1] by blast
  from assms t0 t1 t2 show "\<exists>b. r = Inr b"
    by (auto simp: click_with_fallback_def bindE_def ret_def split: if_splits)
  from assms t0 t1 t2 show "r = Inr False \<Longrightarrow>
           click_attempts tr' = click_attempts tr @ (if 0 < m then [m, m + 1, m - 1] else [m, m + 1])"
    by (auto simp: click_with_fallback_def bindE_def ret_def split: if_splits)
  from assms t0 t1 t2 show "r = Inr False \<Longrightarrow>
           script_click_attempts tr'
             = script_click_attempts tr @ (if 0 < m then [m, m + 1, m - 1] else [m, m + 1])"
    by (auto simp: click_with_fallback_def bindE_def ret_def split: if_splits)
  from assms t0 t1 t2 show "prefix (click_attempts tr') (click_attempts tr @ (if 0 < m then [m, m + 1, m - 1] else [m, m + 1]))"
    by (auto simp: click_with_fallback_def bindE_def ret_def split: if_splits)
  from assms t0 t1 t2 show "prefix (click_attempts tr @ [m]) (click_attempts tr')"
    by (auto simp: click_with_fallback_def bindE_def ret_def split: if_splits)
qed

lemma click_marker_unresolved:
  assumes "\<forall>w el. fst (evaluate_handle p m w) \<noteq> Inr (Some el)"
  shows "\<exists>w1. click_marker p a m (w, tr)
           = click_with_fallback p m (w1, tr @ [HighlightElement m, EvaluateHandle m])"
proof -
  obtain u w0 where h: "highlight_element p m w = (u, w0)" by (cases "highlight_element p m w")
  obtain w1 where g: "get_element_by_marker p m (w0, tr @ [HighlightElement m])
      = (Inr None, (w1, (tr @ [HighlightElement m]) @ [EvaluateHandle m]))"
    using get_element_by_marker_none[OF assms] by blast
  show ?thesis
    unfolding click_marker_def bindE_def prim_total_def
    by (simp add: h g adjust_marker_def ret_def) (rule exI[of _ w1], rule refl)
qed

lemma execute_click_parsed:
  assumes "action_type a = Click" and "target a = Some t"
    and "py_startswith t ''[''" and "py_endswith t '']''"
    and "py_int (py_slice t 1 (- 1)) = Some m"
  shows "execute p a s = try_except (try_except_ValueError (click_marker p a m) (ret False)) (\<lambda>e. ret False) s"
proof -
  from assms(3) have "t \<noteq> []" by (auto simp: py_startswith_def)
  with assms show ?thesis
    by (simp add: execute_def dispatch_def execute_click_def truthy_str_def
        py_int_or_raise_def bindE_def ret_def try_except_def try_except_ValueError_def)
qed

subsection \<open>Adjacent-marker recovery\<close>

text \<open>
  The marker is parsed with \<open>int\<close>, which refuses a separator before the digits and
  strips a blank.
\<close>

lemma py_int_separator_refused: "py_int [CHR 0x1C, CHR ''3''] = None"
  by code_simp

lemma py_int_blank_stripped: "py_int '' 3'' = Some 3"
  by code_simp

text \<open>
  For a click action whose bracketed target parses to a marker \<open>m \<ge> 0\<close> that resolves
  to no element, \<open>execute\<close> never raises; the markers at which it attempts a click are
  an initial part of \<open>m\<close>, \<open>m + 1\<close>, \<open>m - 1\<close> (the last one left out when \<open>m = 0\<close>),
  beginning with \<open>m\<close>; when it returns failure it has attempted all of them, each with
  an evaluation of the click script on the page; and no attempted marker is negative.
\<close>

lemma click_unresolved_index_calls:
  assumes "action_type a = Click" and "target a = Some t"
    and "py_startswith t ''[''" and "py_endswith t '']''"
    and "py_int (py_slice t 1 (- 1)) = Some m"
    and "0 \<le> m"
    and "\<forall>w el. fst (evaluate_handle p m w) \<noteq> Inr (Some el)"
  shows "(fst (execute p a (w, [])) = Inr False \<longrightarrow>
            click_attempts (snd (snd (execute p a (w, []))))
              = (if 0 < m then [m, m + 1, m - 1] else [m, m + 1])
            \<and> script_click_attempts (snd (snd (execute p a (w, []))))
              = (if 0 < m then [m, m + 1, m - 1] else [m, m + 1]))
       \<and> prefix (click_attempts (snd (snd (execute p a (w, [])))))
            (if 0 < m then [m, m + 1, m - 1] else [m, m + 1])
       \<and> prefix [m] (click_attempts (snd (snd (execute p a (w, [])))))
       \<and> (\<forall>i \<in> set (click_attempts (snd (snd (execute p a (w, []))))). 0 \<le> i)
       \<and> (\<exists>b. fst (execute p a (w, [])) = Inr b)"
proof -
  define full where "full = (if 0 < m then [m, m + 1, m - 1] else [m, m + 1])"
  obtain w1 where cm: "click_marker p a m (w, [])
      = click_with_fallback p m (w1, [] @ [HighlightElement m, EvaluateHandle m])"
    using click_marker_unresolved[OF assms(7)] by blast
  obtain r w' tr' where cf:
    "click_with_fallback p m (w1, [HighlightElement m, EvaluateHandle m]) = (r, (w', tr'))"
    by (cases "click_with_fallback p m (w1, [HighlightElement m, EvaluateHandle m])"
        rule: prod_cases3)
  have ca0: "click_attempts [HighlightElement m, EvaluateHandle m] = []"
    by (simp add: click_attempts_def)
  have sc0: "script_click_attempts [HighlightElement m, EvaluateHandle m] = []"
    by (simp add: script_click_attempts_def)
  obtain b where r: "r = Inr b"
    using click_with_fallback_calls(1)[OF cf] by blast
  have fullr: "r = Inr False \<Longrightarrow> click_attempts tr' = full"
    using click_with_fallback_calls(2)[OF cf] by (simp only: ca0 full_def append_Nil)
  have fulls: "r = Inr False \<Longrightarrow> script_click_attempts tr' = full"
    using click_with_fallback_calls(3)[OF cf] by (simp only: sc0 full_def append_Nil)
  have pre: "prefix (click_attempts tr') full"
    using click_with_fallback_calls(4)[OF cf] by (simp only: ca0 full_def append_Nil)
  have first: "prefix [m] (click_attempts tr')"
    using click_with_fallback_calls(5)[OF cf] by (simp only: ca0 append_Nil)
  have ex: "execute p a (w, []) = (Inr b, (w', tr'))"
    unfolding execute_click_parsed[OF assms(1-5)] try_except_def try_except_ValueError_def
    using cm cf r by simp
  have nonneg: "\<forall>i \<in> set full. 0 \<le> i" using assms(6) by (auto simp: full_def)
  from pre have "set (click_attempts tr') \<subseteq> set full" by (rule set_mono_prefix)
  with nonneg have nn: "\<forall>i \<in> set (click_attempts tr'). 0 \<le> i" by blast
  show ?thesis
    unfolding ex fst_conv snd_conv full_def[symmetric]
    using fullr fulls pre first nn r by blast
qed

lemma click_unresolved_index_calls_example:
  "execute (static_page []) (click_action ''[3]'') ((), []) = (Inr False, (),
     [HighlightElement 3, EvaluateHandle 3, TryClickMarker 3,
      EvaluateHandle 3, EvaluateClickScript 3, TryClickMarker 4,
      EvaluateHandle 4, EvaluateClickScript 4, TryClickMarker 2,
      EvaluateHandle 2, EvaluateClickScript 2])"
  by code_simp

text \<open>
  Claim C4, the code at a failing input. The guard \<open>marker_id > 0\<close> keeps the retry at
  \<open>marker_id - 1\<close> from a negative marker, but \<open>int\<close> accepts a sign and nothing
  checks the parsed marker itself: for the target \<open>[-2]\<close>, which resolves to no
  element, the executor calls \<open>_try_click_marker\<close> at \<open>-2\<close> and at \<open>-1\<close> and evaluates
  the click script with both.
\<close>

theorem click_negative_index_attempted:
  "execute (static_page []) (click_action ''[-2]'') ((), [])
     = (Inr False, ((),
         [HighlightElement (- 2), EvaluateHandle (- 2),
          TryClickMarker (- 2), EvaluateHandle (- 2), EvaluateClickScript (- 2),
          TryClickMarker (- 1), EvaluateHandle (- 1), EvaluateClickScript (- 1)]))
   \<and> click_attempts
         [HighlightElement (- 2), EvaluateHandle (- 2),
          TryClickMarker (- 2), EvaluateHandle (- 2), EvaluateClickScript (- 2),
          TryClickMarker (- 1), EvaluateHandle (- 1), EvaluateClickScript (- 1) :: dom_element event]
       = [- 2, - 1]"
proof -
  have run: "execute (static_page []) (click_action ''[-2]'') ((), [])
     = (Inr False, ((),
         [HighlightElement (- 2), EvaluateHandle (- 2),
          TryClickMarker (- 2), EvaluateHandle (- 2), EvaluateClickScript (- 2),
          TryClickMarker (- 1), EvaluateHandle (- 1), EvaluateClickScript (- 1)]))"
    by code_simp
  have att: "click_attempts
         [HighlightElement (- 2), EvaluateHandle (- 2),
          TryClickMarker (- 2), EvaluateHandle (- 2), EvaluateClickScript (- 2),
          TryClickMarker (- 1), EvaluateHandle (- 1), EvaluateClickScript (- 1) :: dom_element event]
       = [- 2, - 1]"
    by (simp add: click_attempts_def)
  from run att show ?thesis by (rule conjI)
qed

subsection \<open>No exception leaves \<open>execute\<close>\<close>

text \<open>
  Claim C7. For every action and every page, whatever its primitive operations raise,
  \<open>execute\<close> returns a Boolean and never an exception.
\<close>

theorem execute_never_raises:
  "\<exists>b s'. execute p a s = (Inr b, s')"
proof -
  obtain r s' where "dispatch p a s = (r, s')" by (cases "dispatch p a s")
  then show ?thesis
    by (cases r) (auto simp: execute_def try_except_def ret_def)
qed

subsection \<open>A type action without payload\<close>

text \<open>
  Claim C9. A type action whose value is the empty string or absent, or whose target is
  absent, makes \<open>execute\<close> return \<open>False\<close> and leaves world and trace as they were:
  no operation of the page is called.
\<close>

theorem execute_type_without_payload:
  assumes "action_type a = Type"
    and "value_field a = Some [] \<or> value_field a = None \<or> target a = None"
  shows "execute p a s = (Inr False, s)"
  using assms
  by (auto simp: execute_def dispatch_def execute_type_def truthy_str_def try_except_def ret_def)

text \<open>Claim C9, witness: a type action with the empty string as value.\<close>

theorem execute_type_without_payload_witness:
  "execute (static_page []) (type_action (Some ''[0]'') (Some [])) ((), []) = (Inr False, ((), []))"
proof -
  have h1: "action_type (type_action (Some ''[0]'') (Some [])) = Type"
    by (simp add: type_action_def)
  have h2: "value_field (type_action (Some ''[0]'') (Some [])) = Some []
      \<or> value_field (type_action (Some ''[0]'') (Some [])) = None
      \<or> target (type_action (Some ''[0]'') (Some [])) = None"
    by (simp add: type_action_def)
  from execute_type_without_payload[OF h1 h2] show ?thesis .
qed

subsection \<open>The stability waiter\<close>

lemma stability_loop_run:
  assumes "\<forall>x \<in> set pre. \<exists>h. x = Inr h"
  shows "\<exists>n. stability_loop (pre @ Inr h # Inr h # Inr h # Inr h # rest) prev sc k = (True, n)
           \<and> n \<le> k + length pre + 4"
  using assms
proof (induction pre arbitrary: prev sc k)
  case Nil
  show ?case by simp
next
  case (Cons x pre)
  then obtain g where x: "x = Inr g" by auto
  from Cons have ih: "\<And>prev sc k. \<exists>n.
      stability_loop (pre @ Inr h # Inr h # Inr h # Inr h # rest) prev sc k = (True, n)
      \<and> n \<le> k + length pre + 4"
    by simp
  show ?case
  proof (cases "Some g = prev")
    case True
    show ?thesis
    proof (cases "sc + 1 \<ge> 3")
      case True
      with \<open>Some g = prev\<close> show ?thesis unfolding x by simp
    next
      case False
      from ih[of "Some g" "sc + 1" "k + 1"] False \<open>Some g = prev\<close>
      show ?thesis unfolding x by auto
    qed
  next
    case False
    from ih[of "Some g" 0 "k + 1"] False show ?thesis unfolding x by auto
  qed
qed

lemma stability_loop_tail:
  assumes "\<forall>x \<in> set pre. \<exists>h. x = Inr h"
  shows "fst (stability_loop (pre @ [Inr h, Inr h, Inr h]) prev sc k) = True"
  using assms
proof (induction pre arbitrary: prev sc k)
  case Nil
  show ?case by simp
next
  case (Cons x pre)
  then obtain g where x: "x = Inr g" by auto
  from Cons have ih: "\<And>prev sc k. fst (stability_loop (pre @ [Inr h, Inr h, Inr h]) prev sc k) = True"
    by simp
  show ?case unfolding x by (simp add: ih)
qed

lemma stability_loop_changing:
  assumes "\<forall>j h h'. Suc j < length polls \<and> polls ! j = Inr h \<and> polls ! Suc j = Inr h' \<longrightarrow> h \<noteq> h'"
    and "\<forall>h. polls \<noteq> [] \<and> hd polls = Inr h \<longrightarrow> prev \<noteq> Some h"
  shows "fst (stability_loop polls prev 0 k) = False
       \<and> ((\<forall>x \<in> set polls. \<exists>h. x = Inr h)
            \<longrightarrow> snd (stability_loop polls prev 0 k) = k + length polls)"
  using assms
proof (induction polls arbitrary: prev k)
  case Nil
  show ?case by simp
next
  case (Cons x polls)
  show ?case
  proof (cases x)
    case (Inl e)
    then show ?thesis by simp
  next
    case (Inr g)
    have a1: "\<forall>j h h'. Suc j < length polls \<and> polls ! j = Inr h \<and> polls ! Suc j = Inr h' \<longrightarrow> h \<noteq> h'"
    proof (intro allI impI)
      fix j h h'
      assume "Suc j < length polls \<and> polls ! j = Inr h \<and> polls ! Suc j = Inr h'"
      then have "Suc (Suc j) < length (x # polls) \<and> (x # polls) ! Suc j = Inr h
          \<and> (x # polls) ! Suc (Suc j) = Inr h'" by simp
      with Cons.prems(1) show "h \<noteq> h'" by blast
    qed
    have a2: "\<forall>h. polls \<noteq> [] \<and> hd polls = Inr h \<longrightarrow> Some g \<noteq> Some h"
    proof (intro allI impI)
      fix h assume p: "polls \<noteq> [] \<and> hd polls = Inr h"
      then have "Suc 0 < length (x # polls) \<and> (x # polls) ! 0 = Inr g \<and> (x # polls) ! Suc 0 = Inr h"
        using Inr by (cases polls) auto
      with Cons.prems(1) have "g \<noteq> h" by blast
      then show "Some g \<noteq> Some h" by simp
    qed
    from Cons.prems(2) Inr have ne: "prev \<noteq> Some g" by simp
    from Cons.IH[OF a1 a2, of "k + 1"] ne Inr show ?thesis by auto
  qed
qed

lemma map_upt_split4:
  assumes "i + 3 < n"
  shows "map f [0..<n] = map f [0..<i] @ f i # f (i + 1) # f (i + 2) # f (i + 3) # map f [i + 4..<n]"
proof -
  have "[0..<n] = [0..<i] @ [i..<n]"
    using assms by (metis le_add2 le_add_same_cancel2 less_imp_le_nat upt_add_eq_append add.commute le_trans less_or_eq_imp_le nat_le_iff_add)
  moreover have "[i..<n] = i # (i + 1) # (i + 2) # (i + 3) # [i + 4..<n]"
    using assms by (simp add: upt_rec[of i n] upt_rec[of "Suc i" n] upt_rec[of "Suc (Suc i)" n]
        upt_rec[of "Suc (Suc (Suc i))" n] numeral_eq_Suc)
  ultimately show ?thesis by simp
qed

lemma map_upt_last3:
  assumes "3 \<le> n"
  shows "map f [0..<n] = map f [0..<n - 3] @ [f (n - 3), f (n - 2), f (n - 1)]"
proof -
  obtain k where n: "n = k + 3" using assms by (metis le_add_diff_inverse2)
  have "[0..<k + 3] = [0..<k] @ [k, k + 1, k + 2]"
    by (simp add: numeral_eq_Suc)
  then show ?thesis unfolding n by (simp add: numeral_eq_Suc)
qed

text \<open>
  Claim C3, as amended. The count of stable checks starts at the second poll, so the
  waiter returns true inside the loop after four consecutive polls with the same
  fingerprint (three unchanged comparisons), provided no poll up to them has failed
  and they lie within the budget; it has then made no poll after them. It also
  returns true when every poll of the budget succeeds and the last three are
  identical. When every polled fingerprint differs from the one before, it returns
  false, and it does so after exhausting its poll budget: if no poll fails, the
  number of polls made is the budget.
\<close>

theorem wait_for_stability_outcomes:
  fixes fingerprint :: "nat \<Rightarrow> exn + 'h"
  shows "((\<forall>j \<le> i + 3. \<exists>h. fingerprint j = Inr h)
           \<and> fingerprint (i + 1) = fingerprint i \<and> fingerprint (i + 2) = fingerprint i
           \<and> fingerprint (i + 3) = fingerprint i \<and> int (i + 3) < max_attempts
          \<longrightarrow> stable (wait_for_stability fingerprint max_attempts)
              \<and> polls_made (wait_for_stability fingerprint max_attempts) \<le> i + 4)
       \<and> ((\<forall>j. int j < max_attempts \<longrightarrow> (\<exists>h. fingerprint j = Inr h))
           \<and> 3 \<le> max_attempts
           \<and> fingerprint (nat max_attempts - 2) = fingerprint (nat max_attempts - 3)
           \<and> fingerprint (nat max_attempts - 1) = fingerprint (nat max_attempts - 3)
          \<longrightarrow> stable (wait_for_stability fingerprint max_attempts))
       \<and> ((\<forall>j h h'. int (Suc j) < max_attempts \<and> fingerprint j = Inr h
              \<and> fingerprint (Suc j) = Inr h' \<longrightarrow> h \<noteq> h')
          \<longrightarrow> \<not> stable (wait_for_stability fingerprint max_attempts)
              \<and> ((\<forall>j. int j < max_attempts \<longrightarrow> (\<exists>h. fingerprint j = Inr h))
                   \<longrightarrow> polls_made (wait_for_stability fingerprint max_attempts)
                         = nat max_attempts))"
proof (intro conjI impI)
  assume a: "(\<forall>j \<le> i + 3. \<exists>h. fingerprint j = Inr h)
           \<and> fingerprint (i + 1) = fingerprint i \<and> fingerprint (i + 2) = fingerprint i
           \<and> fingerprint (i + 3) = fingerprint i \<and> int (i + 3) < max_attempts"
  then have lt: "i + 3 < nat max_attempts" by linarith
  from a obtain h where h: "fingerprint i = Inr h" by (meson le_add1)
  have pre: "\<forall>x \<in> set (map fingerprint [0..<i]). \<exists>h. x = Inr h"
    using a by auto
  from stability_loop_run[OF pre, of h "map fingerprint [i + 4..<nat max_attempts]" None 0 0]
  obtain n where n: "stability_loop (map fingerprint [0..<i] @ Inr h # Inr h # Inr h # Inr h
        # map fingerprint [i + 4..<nat max_attempts]) None 0 0 = (True, n)" "n \<le> i + 4"
    by auto
  have w: "wait_for_stability fingerprint max_attempts = (True, n)"
    unfolding wait_for_stability_def map_upt_split4[OF lt] using a h n(1) by simp
  show "stable (wait_for_stability fingerprint max_attempts)"
    by (simp add: w stable_def)
  show "polls_made (wait_for_stability fingerprint max_attempts) \<le> i + 4"
    using n(2) by (simp add: w polls_made_def)
next
  assume a: "(\<forall>j. int j < max_attempts \<longrightarrow> (\<exists>h. fingerprint j = Inr h))
           \<and> 3 \<le> max_attempts
           \<and> fingerprint (nat max_attempts - 2) = fingerprint (nat max_attempts - 3)
           \<and> fingerprint (nat max_attempts - 1) = fingerprint (nat max_attempts - 3)"
  then have ge: "3 \<le> nat max_attempts" by linarith
  have "int (nat max_attempts - 3) < max_attempts" using ge by linarith
  with a obtain h where h: "fingerprint (nat max_attempts - 3) = Inr h" by blast
  have pre: "\<forall>x \<in> set (map fingerprint [0..<nat max_attempts - 3]). \<exists>h. x = Inr h"
  proof
    fix x assume "x \<in> set (map fingerprint [0..<nat max_attempts - 3])"
    then obtain j where j: "j < nat max_attempts - 3" "x = fingerprint j" by auto
    then have "int j < max_attempts" by linarith
    with a j show "\<exists>h. x = Inr h" by blast
  qed
  show "stable (wait_for_stability fingerprint max_attempts)"
    unfolding stable_def wait_for_stability_def map_upt_last3[OF ge]
    using a h stability_loop_tail[OF pre] by simp
next
  assume a: "\<forall>j h h'. int (Suc j) < max_attempts \<and> fingerprint j = Inr h
              \<and> fingerprint (Suc j) = Inr h' \<longrightarrow> h \<noteq> h'"
  let ?polls = "map fingerprint [0..<nat max_attempts]"
  have a1: "\<forall>j h h'. Suc j < length ?polls \<and> ?polls ! j = Inr h \<and> ?polls ! Suc j = Inr h' \<longrightarrow> h \<noteq> h'"
  proof (intro allI impI)
    fix j h h'
    assume p: "Suc j < length ?polls \<and> ?polls ! j = Inr h \<and> ?polls ! Suc j = Inr h'"
    then have "int (Suc j) < max_attempts" by simp linarith
    moreover from p have "fingerprint j = Inr h" "fingerprint (Suc j) = Inr h'" by auto
    ultimately show "h \<noteq> h'" using a by blast
  qed
  have a2: "\<forall>h. ?polls \<noteq> [] \<and> hd ?polls = Inr h \<longrightarrow> None \<noteq> Some h" by simp
  note ch = stability_loop_changing[OF a1 a2, of 0]
  show "\<not> stable (wait_for_stability fingerprint max_attempts)"
    unfolding stable_def wait_for_stability_def using ch by simp
  show "polls_made (wait_for_stability fingerprint max_attempts) = nat max_attempts"
    if all: "\<forall>j. int j < max_attempts \<longrightarrow> (\<exists>h. fingerprint j = Inr h)"
  proof -
    have "\<forall>x \<in> set ?polls. \<exists>h. x = Inr h"
    proof
      fix x assume "x \<in> set ?polls"
      then obtain j where j: "j < nat max_attempts" "x = fingerprint j" by auto
      then have "int j < max_attempts" by linarith
      with all j show "\<exists>h. x = Inr h" by blast
    qed
    with ch show ?thesis unfolding polls_made_def wait_for_stability_def by simp
  qed
qed

text \<open>
  Claim C3, witness: ten identical polls, where the waiter stops after four; ten polls
  of which the last three are identical; ten polls that all differ, where it makes all
  ten.
\<close>

theorem wait_for_stability_outcomes_witness:
  "stable (wait_for_stability (\<lambda>i. Inr (7::nat) :: exn + nat) 10)
   \<and> polls_made (wait_for_stability (\<lambda>i. Inr (7::nat) :: exn + nat) 10) \<le> 4
   \<and> stable (wait_for_stability (\<lambda>i. Inr (if i < 7 then i else 7) :: exn + nat) 10)
   \<and> \<not> stable (wait_for_stability (\<lambda>i. Inr i :: exn + nat) 10)
   \<and> polls_made (wait_for_stability (\<lambda>i. Inr i :: exn + nat) 10) = 10"
proof -
  have 1: "stable (wait_for_stability (\<lambda>i. Inr (7::nat) :: exn + nat) 10)
      \<and> polls_made (wait_for_stability (\<lambda>i. Inr (7::nat) :: exn + nat) 10) \<le> 4"
    using wait_for_stability_outcomes[of 0 "\<lambda>i. Inr (7::nat)" 10] by simp
  have 2: "stable (wait_for_stability (\<lambda>i. Inr (if i < 7 then i else 7) :: exn + nat) 10)"
    using wait_for_stability_outcomes[of 0 "\<lambda>i. Inr (if i < 7 then i else 7)" 10] by simp
  have 3: "\<not> stable (wait_for_stability (\<lambda>i. Inr i :: exn + nat) 10)
      \<and> polls_made (wait_for_stability (\<lambda>i. Inr i :: exn + nat) 10) = 10"
    using wait_for_stability_outcomes[of 0 "\<lambda>i. Inr i" 10] by simp
  from 1 2 3 show ?thesis by blast
qed

text \<open>
  Claim C3, counterexample to the claim as stated: with the default budget of ten polls,
  three identical fingerprints followed by seven that keep changing give not-stable,
  after all ten polls.
\<close>

theorem three_identical_polls_counterexample:
  "wait_for_stability (\<lambda>i. Inr (if i < 3 then 0 else i) :: exn + nat) 10 = (False, 10)"
  by code_simp

subsection \<open>Malformed responses of the oracle\<close>

text \<open>
  The parser of the task loop catches every exception of its body and answers with the
  wait action; the parser of the login agent does so where \<open>json.loads\<close> fails.
\<close>

lemma task_parser_falls_back:
  "parse_action_body loads validate response = Inl e \<Longrightarrow>
   parse_action_response loads validate response
     = wait_action ''Failed to parse LLM response'' ''Waiting due to parse error'' False"
  by (simp add: parse_action_response_def)

lemma task_parser_no_braces:
  "py_find response ''{'' = -1 \<or> py_rfind response ''}'' = -1 \<Longrightarrow>
   action_type (parse_action_response loads validate response) = Wait"
  by (auto simp: parse_action_response_def parse_action_body_def wait_action_def Let_def)

lemma login_parser_falls_back_on_decode_error:
  "loads (extract_json_text response_text) = None \<Longrightarrow>
   \<exists>vs a. parse_login_decision loads validate creds response_text = Inr vs \<and> action vs = Some a
      \<and> action_type a = Wait"
  by (simp add: parse_login_decision_def wait_action_def)

text \<open>
  Claim C8, the login agent at a response that holds no JSON object. Where the text
  parses to a JSON value that is not an object (a number, a list, \<open>null\<close>), the call
  \<open>decision.get\<close> raises \<open>AttributeError\<close>; the handler only catches
  \<open>JSONDecodeError\<close>, so the exception leaves \<open>decide_login_action\<close> and no wait
  action is returned.
\<close>

theorem login_parser_raises_on_non_object:
  assumes "loads (extract_json_text response_text) = Some d" and "\<forall>kvs. d \<noteq> JObj kvs"
  shows "parse_login_decision loads validate creds response_text = Inl AttributeError"
proof -
  from assms(2) have "py_get d ''action'' (JObj []) = Inl AttributeError"
    by (cases d) (simp_all add: py_get_def)
  with assms(1) show ?thesis
    by (simp add: parse_login_decision_def login_action_kwargs_def)
qed

text \<open>Claim C8, witness: the response \<open>42\<close>.\<close>

theorem login_parser_raises_on_non_object_witness:
  "extract_json_text ''42'' = ''42''
   \<and> loads_42 ''42'' = Some (JNum 42)
   \<and> parse_login_decision loads_42 (\<lambda>kwargs. Inl ValidationError) Map.empty ''42''
       = Inl AttributeError"
proof -
  have e: "extract_json_text ''42'' = ''42''" by code_simp
  have h1: "loads_42 (extract_json_text ''42'') = Some (JNum 42)"
    by (simp add: e loads_42_def)
  have h2: "\<forall>kvs. JNum 42 \<noteq> JObj kvs" by simp
  from login_parser_raises_on_non_object[where loads = loads_42 and response_text = "''42''"
      and d = "JNum 42", OF h1 h2] e h1
  show ?thesis by simp
qed

subsection \<open>Targets written as bare digits\<close>

lemma ascii_digit_facts:
  assumes "is_ascii_digit c"
  shows "c \<noteq> CHR ''_''" "c \<noteq> CHR ''-''" "c \<noteq> CHR ''+''" "\<not> py_int_isspace_char c"
    "py_isdigit_char c"
  using assms
  by (auto simp: is_ascii_digit_def py_int_isspace_char_def py_isdigit_char_def Let_def)

lemma split_underscore_plain:
  "CHR ''_'' \<notin> set s \<Longrightarrow> split_underscore s cur = [rev cur @ s]"
  by (induction s arbitrary: cur) auto

lemma py_int_strip_plain:
  assumes "s \<noteq> []" and "\<not> py_int_isspace_char (hd s)"
    and "\<not> py_int_isspace_char (last s)"
  shows "py_int_strip s = s"
proof -
  from assms have 1: "dropWhile py_int_isspace_char s = s" by (cases s) auto
  from assms have "rev s \<noteq> []" "\<not> py_int_isspace_char (hd (rev s))"
    by (auto simp: hd_rev)
  then have 2: "dropWhile py_int_isspace_char (rev s) = rev s" by (cases "rev s") auto
  show ?thesis by (simp add: py_int_strip_def 1 2)
qed

lemma py_int_digits:
  assumes "s \<noteq> []" and "list_all is_ascii_digit s" and "length s \<le> int_max_str_digits"
  shows "py_int s = Some (int (dec_value s))"
proof -
  from assms obtain c cs where s: "s = c # cs" by (cases s) auto
  from assms(1,2) have hd: "is_ascii_digit (hd s)" and lst: "is_ascii_digit (last s)"
    by (auto simp: list_all_iff)
  have strip: "py_int_strip s = s"
    using py_int_strip_plain[OF assms(1)] hd lst ascii_digit_facts(4) by blast
  from assms(2) have nous: "CHR ''_'' \<notin> set s"
    using ascii_digit_facts(1) by (auto simp: list_all_iff)
  have groups: "split_underscore s [] = [s]" using split_underscore_plain[OF nous, of "[]"] by simp
  have u: "py_int_unsigned s = Some (dec_value s)"
    using assms by (simp add: py_int_unsigned_def groups)
  from hd s have "c \<noteq> CHR ''-''" "c \<noteq> CHR ''+''" using ascii_digit_facts(2,3) by auto
  then show ?thesis using u strip s by (simp add: py_int_def)
qed

lemma bracket_slice: "py_slice (''['' @ s @ '']'') 1 (- 1) = s"
  by (simp add: py_slice_def Let_def)

lemma bracket_prefix_suffix:
  "py_startswith (''['' @ s @ '']'') ''[''" "py_endswith (''['' @ s @ '']'') '']''"
  by (simp_all add: py_startswith_def py_endswith_def suffix_def)

lemma digits_not_bracketed:
  assumes "s \<noteq> []" and "list_all is_ascii_digit s"
  shows "\<not> py_startswith s ''[''"
proof -
  from assms obtain c cs where s: "s = c # cs" and "is_ascii_digit c" by (cases s) auto
  then have "c \<noteq> CHR ''[''" by (auto simp: is_ascii_digit_def Let_def)
  with s show ?thesis by (simp add: py_startswith_def)
qed

lemma py_isdigit_ascii:
  assumes "s \<noteq> []" and "list_all is_ascii_digit s"
  shows "py_isdigit s"
  using assms ascii_digit_facts(5) by (auto simp: py_isdigit_def list_all_iff)

lemma login_kwargs_target:
  assumes "map_of decision ''action'' = Some (JObj action_data)"
    and "map_of action_data ''target'' = Some t"
    and "normalize_target t = Inr t'"
  shows "\<exists>kwargs. login_action_kwargs credentials (JObj decision) = Inr kwargs
           \<and> map_of kwargs ''target'' = Some t'"
proof -
  have g: "py_get (JObj decision) ''action'' (JObj []) = Inr (JObj action_data)"
    using assms(1) by (simp add: py_get_def)
  have "\<exists>ad'. substitute_password credentials (JObj action_data) = Inr (JObj ad')
      \<and> map_of ad' ''target'' = Some t"
    using assms(2)
    by (cases "map_of action_data ''value''") (auto simp: substitute_password_def py_get_def)
  then obtain ad' where sp: "substitute_password credentials (JObj action_data) = Inr (JObj ad')"
    and tg: "map_of ad' ''target'' = Some t"
    by blast
  have "the_get (JObj ad') ''target'' JNull = t"
    using tg by (simp add: the_get_def py_get_def)
  then show ?thesis
    using g sp assms(3) by (simp add: login_action_kwargs_def)
qed

text \<open>
  Claim C2, as amended. Let \<open>s\<close> be a non-empty string of ASCII digits that \<open>int\<close>
  accepts. When the decision of the login agent has the target \<open>s\<close>, the keyword
  arguments for the action carry the target \<open>[s]\<close>; the executor resolves a click
  action with that target at the marker that \<open>s\<close> denotes; and the executor itself
  does not normalise: with the bare digits as target it returns failure without a
  call to the page.
\<close>

theorem bare_digit_target_normalized:
  assumes "s \<noteq> []" and "list_all is_ascii_digit s" and "length s \<le> int_max_str_digits"
    and "map_of decision ''action'' = Some (JObj action_data)"
    and "map_of action_data ''target'' = Some (JStr s)"
    and "action_type a = Click" and "target a = Some (''['' @ s @ '']'')"
  shows "(\<exists>kwargs. login_action_kwargs credentials (JObj decision) = Inr kwargs
            \<and> map_of kwargs ''target'' = Some (JStr (''['' @ s @ '']'')))
       \<and> execute p a st
           = try_except (try_except_ValueError (click_marker p a (int (dec_value s))) (ret False))
               (\<lambda>e. ret False) st
       \<and> execute p (a\<lparr>target := Some s\<rparr>) st = (Inr False, st)"
proof (intro conjI)
  have n: "normalize_target (JStr s) = Inr (JStr (''['' @ s @ '']''))"
    using assms(1) py_isdigit_ascii[OF assms(1,2)] by (simp add: normalize_target_def py_truthy_def)
  show "\<exists>kwargs. login_action_kwargs credentials (JObj decision) = Inr kwargs
            \<and> map_of kwargs ''target'' = Some (JStr (''['' @ s @ '']''))"
    by (rule login_kwargs_target[OF assms(4,5) n])
  have pi: "py_int (py_slice (''['' @ s @ '']'') 1 (- 1)) = Some (int (dec_value s))"
    using py_int_digits[OF assms(1-3)] by (simp only: bracket_slice)
  show "execute p a st
          = try_except (try_except_ValueError (click_marker p a (int (dec_value s))) (ret False))
              (\<lambda>e. ret False) st"
    by (rule execute_click_parsed[OF assms(6,7) bracket_prefix_suffix pi])
  show "execute p (a\<lparr>target := Some s\<rparr>) st = (Inr False, st)"
    using assms(1,6) digits_not_bracketed[OF assms(1,2)]
    by (simp add: execute_def dispatch_def execute_click_def truthy_str_def try_except_def ret_def)
qed

text \<open>Claim C2, witness: the target \<open>7\<close> in a decision of the login agent.\<close>

theorem bare_digit_target_normalized_witness:
  "(\<exists>kwargs. login_action_kwargs Map.empty (JObj decision_click_7) = Inr kwargs
      \<and> map_of kwargs ''target'' = Some (JStr ''[7]''))
   \<and> click_attempts (snd (snd (execute (static_page []) (click_action ''[7]'') ((), [])))) = [7, 8, 6]
   \<and> execute (static_page []) ((click_action ''[7]'')\<lparr>target := Some ''7''\<rparr>) ((), []) = (Inr False, ((), []))"
proof -
  have h1: "''7'' \<noteq> []" by simp
  have h2: "list_all is_ascii_digit ''7''" by (simp add: is_ascii_digit_def)
  have h3: "length ''7'' \<le> int_max_str_digits" by (simp add: int_max_str_digits_def)
  have h4: "map_of decision_click_7 ''action''
      = Some (JObj [(''action_type'', JStr ''click''), (''target'', JStr ''7'')])"
    by (simp add: decision_click_7_def)
  have h5: "map_of [(''action_type'', JStr ''click''), (''target'', JStr ''7'')] ''target''
      = Some (JStr ''7'')" by simp
  have h6: "action_type (click_action ''[7]'') = Click" by (simp add: click_action_def)
  have h7: "target (click_action ''[7]'') = Some (''['' @ ''7'' @ '']'')"
    by (simp add: click_action_def)
  have c: "click_attempts (snd (snd (execute (static_page []) (click_action ''[7]'') ((), [])))) = [7, 8, 6]"
    by code_simp
  from bare_digit_target_normalized[OF h1 h2 h3 h4 h5 h6 h7, of Map.empty "static_page []" "((), [])"] c
  show ?thesis by simp
qed

text \<open>
  Claim C2, counterexample to the claim as stated: a click action that reaches the
  executor with the target \<open>7\<close>, as the parser of the task loop hands it on, is
  rejected and no click at marker 7 is attempted.
\<close>

theorem bare_digit_target_rejected_counterexample:
  "execute (static_page []) (click_action ''7'') ((), []) = (Inr False, ((), []))"
  by code_simp

subsection \<open>The retry reset\<close>

text \<open>
  Claim C1, as amended. The reset sets the navigation milestone and clears the four
  others: the identifier, the advance, the secret and the submit milestone. The stuck
  counter and the last fingerprint stay.
\<close>

theorem reset_actions_milestones:
  "navigated_to_login (actions_taken (reset_actions h)) = True
   \<and> filled_email (actions_taken (reset_actions h)) = False
   \<and> clicked_continue_after_email (actions_taken (reset_actions h)) = False
   \<and> filled_password (actions_taken (reset_actions h)) = False
   \<and> submitted_login (actions_taken (reset_actions h)) = False
   \<and> previous_state (reset_actions h) = previous_state h
   \<and> stuck_counter (reset_actions h) = stuck_counter h"
  by (simp add: reset_actions_def)

text \<open>
  Claim C1, counterexample to the claim as stated: the identifier milestone, which is
  not about the secret, is true before the reset and false after it.
\<close>

theorem reset_unsets_identifier_counterexample:
  "filled_email (actions_taken email_filled) = True
   \<and> filled_email (actions_taken (reset_actions email_filled)) = False"
  by (simp add: reset_actions_def email_filled_def)

text \<open>The loop takes the reset where the check for an inline error finds a message.\<close>

lemma error_block_resets:
  assumes "check_for_error_messages H w = (Some msg, w')" and "msg \<noteq> []"
  shows "error_block H h (w, tr)
     = (Inr (Continue, reset_actions h), (w', tr @ [Helper ''_check_for_error_messages'']))"
  using assms by (simp add: error_block_def bindE_def prim_total_def ret_def truthy_str_def)

subsection \<open>Missing credentials\<close>

text \<open>
  Claim C10. When the credentials hold neither a non-empty \<open>email\<close> nor a non-empty
  \<open>username\<close>, or no non-empty \<open>password\<close>, \<open>authenticate\<close> returns \<open>False\<close> with
  the handler, the world and the trace as they were: no step is taken and nothing is
  called.
\<close>

theorem authenticate_missing_credentials:
  assumes "(credentials ''email'' \<in> {None, Some []} \<and> credentials ''username'' \<in> {None, Some []})
           \<or> credentials ''password'' \<in> {None, Some []}"
  shows "authenticate H p credentials max_steps screenshot_dir h s = (Inr (False, h), s)"
proof -
  from assms have "\<not> truthy_str (py_or (credentials ''email'') (credentials ''username''))
      \<or> \<not> truthy_str (credentials ''password'')"
    by (auto simp: truthy_str_def py_or_def)
  then show ?thesis by (auto simp: authenticate_def Let_def ret_def)
qed

text \<open>Claim C10, witness: credentials without a password.\<close>

theorem authenticate_missing_credentials_witness:
  "authenticate quiet_helpers (static_page []) [''email'' \<mapsto> ''u@x.com''] 10 None init_handler ((), [])
     = (Inr (False, init_handler), ((), []))"
proof -
  have h: "([''email'' \<mapsto> ''u@x.com''] ''email'' \<in> {None, Some []}
            \<and> [''email'' \<mapsto> ''u@x.com''] ''username'' \<in> {None, Some []})
           \<or> [''email'' \<mapsto> ''u@x.com''] ''password'' \<in> {None, Some []}"
    by simp
  from authenticate_missing_credentials[OF h] show ?thesis .
qed

subsection \<open>Sign-up links during the navigation to the login page\<close>

text \<open>
  Either loop reads the text of an element before the click. The loop over the text
  selectors refuses the three sign-up terms; the loop over the href selectors only two
  of them.
\<close>

lemma try_login_selector_click_checked:
  assumes "try_login_selector p sel (w, tr) = (r, (w', tr'))"
    and "ElementClick el \<in> set tr'" and "ElementClick el \<notin> set tr"
  shows "\<exists>w0 t w1. inner_text p el w0 = (Inr t, w1) \<and> \<not> py_in ''sign up'' (py_lower t)
           \<and> \<not> py_in ''signup'' (py_lower t) \<and> \<not> py_in ''register'' (py_lower t)"
  using assms
  apply (auto simp: try_login_selector_def try_except_def bindE_def prim_def ret_def Let_def
      split: prod.splits sum.splits option.splits if_splits)
   apply (intro exI conjI, assumption+)+
  done

lemma try_href_selector_click_checked:
  assumes "try_href_selector p sel (w, tr) = (r, (w', tr'))"
    and "ElementClick el \<in> set tr'" and "ElementClick el \<notin> set tr"
  shows "\<exists>w0 t w1. inner_text p el w0 = (Inr t, w1) \<and> \<not> py_in ''sign up'' (py_lower t)
           \<and> \<not> py_in ''signup'' (py_lower t)"
  using assms
  apply (auto simp: try_href_selector_def try_except_def bindE_def prim_def ret_def Let_def
      split: prod.splits sum.splits option.splits if_splits)
   apply (intro exI conjI, assumption+)+
  done

text \<open>
  Claim C5, the code at a failing input: a visible link with the text \<open>Register\<close>
  that the first href selector finds and no text selector matches. The text holds a
  sign-up term, and the link is clicked.
\<close>

theorem register_link_clicked:
  "navigate_to_login_page (static_page [register_link]) ((), [])
     = (Inr True, ((), map QuerySelector login_selectors
          @ [QuerySelector (hd href_selectors), IsVisible register_link,
             InnerText register_link, ElementClick register_link]))
   \<and> py_in ''register'' (py_lower (el_text register_link))"
proof -
  have run: "navigate_to_login_page (static_page [register_link]) ((), [])
     = (Inr True, ((), map QuerySelector login_selectors
          @ [QuerySelector (hd href_selectors), IsVisible register_link,
             InnerText register_link, ElementClick register_link]))"
    by code_simp
  have reg: "py_in ''register'' (py_lower (el_text register_link))"
    by code_simp
  from run reg show ?thesis by (rule conjI)
qed

subsection \<open>A password field that is already visible\<close>









end
